theory Spec2Isabelle
  imports Main
begin

section \<open>Data model\<close>

text \<open>
  A Python \<open>str\<close> is a sequence of Unicode code points (numbers below \<open>0x110000\<close>, lone
  surrogates included); \<open>bytes\<close> is a sequence of 8-bit characters.
\<close>

type_synonym pystr = "nat list"
type_synonym bytes = "char list"

definition ascii :: "string \<Rightarrow> pystr" where
  "ascii s = map of_char s"

text \<open>
  Modelled from the spec: the exception classes \<open>ApiError\<close> and \<open>LanguageNotFound\<close> of
  \<open>exceptions.py\<close>, which is not among the sources; each carries the message it is raised
  with. The other three are the exceptions of the UTF-8 codec and of the HTTP transport.
\<close>

datatype error =
    UnicodeEncodeError
  | UnicodeDecodeError
  | ClientConnectionError
  | ApiError pystr
  | LanguageNotFound pystr

text \<open>The values \<open>_format_payload\<close> receives: \<open>None\<close>, a \<open>str\<close> or a \<open>list\<close> of \<open>str\<close>.\<close>

datatype pyobj = PyNone | PyStr pystr | PyList "pystr list"

section \<open>Library functions of Python used by the client\<close>

subsection \<open>The strict UTF-8 codec\<close>

definition is_surrogate :: "nat \<Rightarrow> bool" where
  "is_surrogate cp = (0xD800 \<le> cp \<and> cp \<le> 0xDFFF)"

text \<open>\<open>bytes(s, encoding='utf-8')\<close> on one code point: surrogates are refused.\<close>

definition utf8_char :: "nat \<Rightarrow> error + bytes" where
  "utf8_char cp =
     (if cp < 0x80 then Inr [char_of cp]
      else if cp < 0x800 then
        Inr [char_of (0xC0 + cp div 0x40), char_of (0x80 + cp mod 0x40)]
      else if is_surrogate cp then Inl UnicodeEncodeError
      else if cp < 0x10000 then
        Inr [char_of (0xE0 + cp div 0x1000), char_of (0x80 + cp div 0x40 mod 0x40),
             char_of (0x80 + cp mod 0x40)]
      else if cp < 0x110000 then
        Inr [char_of (0xF0 + cp div 0x40000), char_of (0x80 + cp div 0x1000 mod 0x40),
             char_of (0x80 + cp div 0x40 mod 0x40), char_of (0x80 + cp mod 0x40)]
      else Inl UnicodeEncodeError)"

fun utf8_encode :: "pystr \<Rightarrow> error + bytes" where
  "utf8_encode [] = Inr []"
| "utf8_encode (c # cs) =
     (case utf8_char c of
        Inl e \<Rightarrow> Inl e
      | Inr b \<Rightarrow> (case utf8_encode cs of Inl e \<Rightarrow> Inl e | Inr bs \<Rightarrow> Inr (b @ bs)))"

definition is_cont :: "char \<Rightarrow> bool" where
  "is_cont b = (0x80 \<le> (of_char b :: nat) \<and> (of_char b :: nat) < 0xC0)"

definition cont_bits :: "char \<Rightarrow> nat" where
  "cont_bits b = of_char b - 0x80"

text \<open>
  \<open>data.decode("utf-8")\<close>: the strict decoder refuses stray and missing continuation
  bytes, overlong forms, surrogates and values above \<open>0x10FFFF\<close>.
\<close>

fun utf8_decode :: "bytes \<Rightarrow> error + pystr" where
  "utf8_decode [] = Inr []"
| "utf8_decode (b0 # bs) =
     (let n0 = (of_char b0 :: nat) in
      if n0 < 0x80 then
        (case utf8_decode bs of Inl e \<Rightarrow> Inl e | Inr cs \<Rightarrow> Inr (n0 # cs))
      else if 0xC0 \<le> n0 \<and> n0 < 0xE0 then
        (case bs of
           b1 # r \<Rightarrow>
             (let cp = (n0 - 0xC0) * 0x40 + cont_bits b1 in
              if is_cont b1 \<and> 0x80 \<le> cp then
                (case utf8_decode r of Inl e \<Rightarrow> Inl e | Inr cs \<Rightarrow> Inr (cp # cs))
              else Inl UnicodeDecodeError)
         | _ \<Rightarrow> Inl UnicodeDecodeError)
      else if 0xE0 \<le> n0 \<and> n0 < 0xF0 then
        (case bs of
           b1 # b2 # r \<Rightarrow>
             (let cp = (n0 - 0xE0) * 0x1000 + cont_bits b1 * 0x40 + cont_bits b2 in
              if is_cont b1 \<and> is_cont b2 \<and> 0x800 \<le> cp \<and> \<not> is_surrogate cp then
                (case utf8_decode r of Inl e \<Rightarrow> Inl e | Inr cs \<Rightarrow> Inr (cp # cs))
              else Inl UnicodeDecodeError)
         | _ \<Rightarrow> Inl UnicodeDecodeError)
      else if 0xF0 \<le> n0 \<and> n0 < 0xF8 then
        (case bs of
           b1 # b2 # b3 # r \<Rightarrow>
             (let cp = (n0 - 0xF0) * 0x40000 + cont_bits b1 * 0x1000
                       + cont_bits b2 * 0x40 + cont_bits b3 in
              if is_cont b1 \<and> is_cont b2 \<and> is_cont b3 \<and> 0x10000 \<le> cp \<and> cp < 0x110000 then
                (case utf8_decode r of Inl e \<Rightarrow> Inl e | Inr cs \<Rightarrow> Inr (cp # cs))
              else Inl UnicodeDecodeError)
         | _ \<Rightarrow> Inl UnicodeDecodeError)
      else Inl UnicodeDecodeError)"

subsection \<open>\<open>str(n)\<close>, \<open>sep.join(parts)\<close>, \<open>sub in s\<close>\<close>

text \<open>\<open>str(n)\<close> for a non-negative integer: its decimal digits, without leading zeros.\<close>

fun str_nat :: "nat \<Rightarrow> pystr" where
  "str_nat n = (if n < 10 then [48 + n] else str_nat (n div 10) @ [48 + n mod 10])"

declare str_nat.simps [simp del]

fun py_join :: "pystr \<Rightarrow> pystr list \<Rightarrow> pystr" where
  "py_join sep [] = []"
| "py_join sep [x] = x"
| "py_join sep (x # y # ys) = x @ sep @ py_join sep (y # ys)"

text \<open>\<open>sub in s\<close> on two strings: \<open>sub\<close> occurs in \<open>s\<close> as a contiguous run.\<close>

fun py_in_str :: "pystr \<Rightarrow> pystr \<Rightarrow> bool" where
  "py_in_str sub [] = (sub = [])"
| "py_in_str sub (c # cs) = (take (length sub) (c # cs) = sub \<or> py_in_str sub cs)"

subsection \<open>\<open>zlib.compress\<close>\<close>

text \<open>
  zlib is an external library. Its output is the container of RFC 1950: a two-byte header
  (\<open>CMF = 0x78\<close>, then \<open>FLG\<close> holding the level class and a check value that makes the
  header a multiple of 31), the raw DEFLATE stream, and the Adler-32 checksum of the input
  as four big-endian bytes. The DEFLATE encoder itself is a parameter \<open>deflate\<close>, a function
  of the level and the input.
\<close>

definition adler32 :: "bytes \<Rightarrow> nat" where
  "adler32 bs =
     (let (a, b) = foldl (\<lambda>(a, b) c. let a' = (a + of_char c) mod 65521
                                      in (a', (b + a') mod 65521)) (1, 0) bs
      in b * 65536 + a)"

definition be32 :: "nat \<Rightarrow> bytes" where
  "be32 n = [char_of (n div 0x1000000), char_of (n div 0x10000), char_of (n div 0x100), char_of n]"

definition zlib_level_flags :: "nat \<Rightarrow> nat" where
  "zlib_level_flags level = (if level < 2 then 0 else if level < 6 then 1 else if level = 6 then 2 else 3)"

definition zlib_header :: "nat \<Rightarrow> bytes" where
  "zlib_header level =
     (let h = 0x7800 + zlib_level_flags level * 0x40; h' = h + (31 - h mod 31)
      in [char_of (h' div 0x100), char_of h'])"

definition compress :: "(nat \<Rightarrow> bytes \<Rightarrow> bytes) \<Rightarrow> bytes \<Rightarrow> nat \<Rightarrow> bytes" where
  "compress deflate data level = zlib_header level @ deflate level data @ be32 (adler32 data)"

text \<open>The slice \<open>x[2:-4]\<close>: empty when \<open>x\<close> has fewer than seven elements.\<close>

definition slice_2_m4 :: "'a list \<Rightarrow> 'a list" where
  "slice_2_m4 x = drop 2 (take (length x - 4) x)"

subsection \<open>\<open>re.search\<close> for the forms the client's pattern uses\<close>

text \<open>
  A pattern is a sequence of items: a literal text, an optional character \<open>c?\<close>, one
  character \<open>.\<close> (any but the newline) and \<open>.+\<close>. \<open>rx_match p s\<close> holds when some prefix of
  \<open>s\<close> matches \<open>p\<close>; the backtracking matcher of \<open>re\<close> finds a match whenever one exists.
\<close>

datatype rx_item = Lit pystr | OptChar nat | AnyChar | AnyPlus

fun rx_match :: "rx_item list \<Rightarrow> pystr \<Rightarrow> bool" where
  "rx_match [] s = True"
| "rx_match (Lit l # p) s = (take (length l) s = l \<and> rx_match p (drop (length l) s))"
| "rx_match (OptChar c # p) [] = rx_match p []"
| "rx_match (OptChar c # p) (x # xs) = ((x = c \<and> rx_match p xs) \<or> rx_match p (x # xs))"
| "rx_match (AnyChar # p) [] = False"
| "rx_match (AnyChar # p) (x # xs) = (x \<noteq> 10 \<and> rx_match p xs)"
| "rx_match (AnyPlus # p) [] = False"
| "rx_match (AnyPlus # p) (x # xs) = (x \<noteq> 10 \<and> (rx_match (AnyPlus # p) xs \<or> rx_match p xs))"

fun re_search :: "rx_item list \<Rightarrow> pystr \<Rightarrow> bool" where
  "re_search p [] = rx_match p []"
| "re_search p (x # xs) = (rx_match p (x # xs) \<or> re_search p xs)"

section \<open>The client: \<open>class Tio\<close>\<close>

subsection \<open>\<open>_format_payload\<close>\<close>

text \<open>
  \<open>not obj\<close> holds for \<open>None\<close>, the empty string and the empty list. A list goes through
  \<open>'\x00'.join(['V' + name, str(len(obj))] + obj) + '\x00'\<close>, a string through
  \<open>f"F{name}\x00{len(bytes(obj, encoding='utf-8'))}\x00{obj}\x00"\<close>, and the text is then
  encoded as a whole.
\<close>

fun format_payload :: "pystr \<Rightarrow> pyobj \<Rightarrow> error + bytes" where
  "format_payload name PyNone = Inr []"
| "format_payload name (PyList obj) =
     (if obj = [] then Inr []
      else let content = [ascii ''V'' @ name, str_nat (length obj)] @ obj
           in utf8_encode (py_join [0] content @ [0]))"
| "format_payload name (PyStr obj) =
     (if obj = [] then Inr []
      else case utf8_encode obj of
             Inl e \<Rightarrow> Inl e
           | Inr b \<Rightarrow> utf8_encode (ascii ''F'' @ name @ [0] @ str_nat (length b) @ [0] @ obj @ [0]))"

subsection \<open>\<open>execute\<close>\<close>

text \<open>
  The HTTP session is the one effect: it is modelled as the replies the server will give,
  in order, and the requests posted so far. A post takes the next reply; with none left the
  transport raises.
\<close>

record http_response =
  status :: nat
  reason :: pystr
  body :: bytes

text \<open>aiohttp's \<open>ClientResponse.ok\<close>: the status is below 400.\<close>

definition ok :: "http_response \<Rightarrow> bool" where
  "ok r = (status r < 400)"

record client_session =
  replies :: "http_response list"
  posted :: "(pystr \<times> bytes) list"

definition session_post :: "client_session \<Rightarrow> pystr \<Rightarrow> bytes \<Rightarrow> error + (http_response \<times> client_session)" where
  "session_post s url data =
     (case replies s of
        [] \<Rightarrow> Inl ClientConnectionError
      | r # rs \<Rightarrow> Inr (r, s\<lparr>replies := rs, posted := posted s @ [(url, data)]\<rparr>))"

record tio =
  languages :: "pystr list"
  session :: client_session

definition API_URL :: pystr where
  "API_URL = ascii ''https://tio.run/cgi-bin/run/api/''"

text \<open>
  Modelled from the spec: the class \<open>TioResponse\<close> of \<open>response.py\<close>, which is not among the
  sources. It holds the decoded response text and the resolved language identifier, the two
  arguments \<open>execute\<close> builds it from; its derived fields are not needed here.
\<close>

datatype tio_response = TioResponse pystr pystr

text \<open>Lines 89 to 92: the language is replaced by the first catalog entry containing it.\<close>

definition resolve_language :: "pystr list \<Rightarrow> pystr \<Rightarrow> pystr" where
  "resolve_language langs language =
     (if language \<notin> set langs then
        (let match = filter (\<lambda>l. py_in_str language l) langs
         in if match \<noteq> [] then hd match else language)
      else language)"

text \<open>Lines 94 to 101: the dictionary \<open>data\<close>, in insertion order.\<close>

definition of_opt_str :: "pystr option \<Rightarrow> pyobj" where
  "of_opt_str x = (case x of None \<Rightarrow> PyNone | Some s \<Rightarrow> PyStr s)"

definition of_opt_list :: "pystr list option \<Rightarrow> pyobj" where
  "of_opt_list x = (case x of None \<Rightarrow> PyNone | Some xs \<Rightarrow> PyList xs)"

definition request_data ::
  "pystr \<Rightarrow> pystr \<Rightarrow> pystr option \<Rightarrow> pystr list option \<Rightarrow> pystr list option \<Rightarrow> pystr list option
     \<Rightarrow> (pystr \<times> pyobj) list" where
  "request_data language code inputs compiler_flags Cl_options arguments =
     [(ascii ''lang'', PyList [language]),
      (ascii ''.code.tio'', PyStr code),
      (ascii ''.input.tio'', of_opt_str inputs),
      (ascii ''TIO_CFLAGS'', of_opt_list compiler_flags),
      (ascii ''TIO_OPTIONS'', of_opt_list Cl_options),
      (ascii ''args'', of_opt_list arguments)]"

text \<open>\<open>b''.join(map(f, keys, values))\<close>: the first exception of \<open>f\<close> ends the join.\<close>

fun join_map :: "('k \<Rightarrow> 'v \<Rightarrow> error + bytes) \<Rightarrow> ('k \<times> 'v) list \<Rightarrow> error + bytes" where
  "join_map f [] = Inr []"
| "join_map f ((k, v) # kvs) =
     (case f k v of
        Inl e \<Rightarrow> Inl e
      | Inr b \<Rightarrow> (case join_map f kvs of Inl e \<Rightarrow> Inl e | Inr bs \<Rightarrow> Inr (b @ bs)))"

definition build_payload :: "(pystr \<times> pyobj) list \<Rightarrow> error + bytes" where
  "build_payload data =
     (case join_map format_payload data of Inl e \<Rightarrow> Inl e | Inr b \<Rightarrow> Inr (b @ ''R''))"

definition post_body :: "(nat \<Rightarrow> bytes \<Rightarrow> bytes) \<Rightarrow> bytes \<Rightarrow> bytes" where
  "post_body deflate payload = slice_2_m4 (compress deflate payload 9)"

definition language_not_found_re :: "rx_item list" where
  "language_not_found_re =
     [Lit (ascii ''The language''), OptChar 32, Lit [39], AnyPlus, Lit [39], OptChar 32,
      Lit (ascii ''could not be found on the server''), AnyChar]"

text \<open>Lines 111 to 120: what \<open>execute\<close> does with the reply.\<close>

definition handle_response :: "http_response \<Rightarrow> pystr \<Rightarrow> error + tio_response" where
  "handle_response r language =
     (if ok r then
        (case utf8_decode (body r) of
           Inl e \<Rightarrow> Inl e
         | Inr data \<Rightarrow>
             if re_search language_not_found_re data then Inl (LanguageNotFound (drop 16 data))
             else Inr (TioResponse data language))
      else Inl (ApiError (ascii ''Error '' @ str_nat (status r) @ ascii '', '' @ reason r)))"

definition execute ::
  "(nat \<Rightarrow> bytes \<Rightarrow> bytes) \<Rightarrow> tio \<Rightarrow> pystr \<Rightarrow> pystr \<Rightarrow> pystr option \<Rightarrow> pystr list option
     \<Rightarrow> pystr list option \<Rightarrow> pystr list option \<Rightarrow> (error + tio_response) \<times> tio" where
  "execute deflate self code language inputs compiler_flags Cl_options arguments =
     (let language' = resolve_language (languages self) language;
          data = request_data language' code inputs compiler_flags Cl_options arguments
      in case build_payload data of
           Inl e \<Rightarrow> (Inl e, self)
         | Inr payload \<Rightarrow>
             (case session_post (session self) API_URL (post_body deflate payload) of
                Inl e \<Rightarrow> (Inl e, self)
              | Inr (r, s') \<Rightarrow> (handle_response r language', self\<lparr>session := s'\<rparr>)))"

section \<open>The wire format, as a reader sees it\<close>

text \<open>
  The properties of the records are stated against a reader of the format: a scalar record
  is \<open>F\<close>, the name up to the first NUL, the byte length in decimal up to the next NUL,
  that many bytes of text, and a closing NUL; a sequence record is \<open>V\<close>, the name, the
  count, and that many NUL-terminated elements. Names and texts are UTF-8.
\<close>

definition NUL :: char where
  "NUL = CHR 0x00"

definition decimal :: "nat \<Rightarrow> bytes" where
  "decimal n = map char_of (str_nat n)"

definition contains_text :: "pystr \<Rightarrow> pystr \<Rightarrow> bool" where
  "contains_text s sub = (\<exists>pre post. s = pre @ sub @ post)"

fun split_nul :: "bytes \<Rightarrow> (bytes \<times> bytes) option" where
  "split_nul [] = None"
| "split_nul (b # bs) =
     (if b = NUL then Some ([], bs)
      else case split_nul bs of None \<Rightarrow> None | Some (x, r) \<Rightarrow> Some (b # x, r))"

definition is_digit :: "char \<Rightarrow> bool" where
  "is_digit c = (48 \<le> (of_char c :: nat) \<and> (of_char c :: nat) \<le> 57)"

definition parse_nat :: "bytes \<Rightarrow> nat option" where
  "parse_nat bs =
     (if bs \<noteq> [] \<and> list_all is_digit bs
      then Some (foldl (\<lambda>a c. 10 * a + (of_char c - 48)) 0 bs) else None)"

definition decode_scalar :: "bytes \<Rightarrow> (pystr \<times> nat \<times> pystr) option" where
  "decode_scalar record =
     (case record of
        [] \<Rightarrow> None
      | t # r0 \<Rightarrow>
          if t \<noteq> CHR ''F'' then None
          else case split_nul r0 of
            None \<Rightarrow> None
          | Some (nm, r1) \<Rightarrow>
              (case split_nul r1 of
                 None \<Rightarrow> None
               | Some (ln, r2) \<Rightarrow>
                   (case parse_nat ln of
                      None \<Rightarrow> None
                    | Some n \<Rightarrow>
                        if drop n r2 = [NUL] then
                          (case (utf8_decode nm, utf8_decode (take n r2)) of
                             (Inr name, Inr s) \<Rightarrow> Some (name, n, s)
                           | _ \<Rightarrow> None)
                        else None)))"

fun take_elements :: "nat \<Rightarrow> bytes \<Rightarrow> (bytes list \<times> bytes) option" where
  "take_elements 0 r = Some ([], r)"
| "take_elements (Suc n) r =
     (case split_nul r of
        None \<Rightarrow> None
      | Some (e, r') \<Rightarrow>
          (case take_elements n r' of None \<Rightarrow> None | Some (es, r'') \<Rightarrow> Some (e # es, r'')))"

fun utf8_decode_all :: "bytes list \<Rightarrow> pystr list option" where
  "utf8_decode_all [] = Some []"
| "utf8_decode_all (b # bs) =
     (case utf8_decode b of
        Inl e \<Rightarrow> None
      | Inr s \<Rightarrow> (case utf8_decode_all bs of None \<Rightarrow> None | Some ss \<Rightarrow> Some (s # ss)))"

definition decode_vector :: "bytes \<Rightarrow> (pystr \<times> nat \<times> pystr list) option" where
  "decode_vector record =
     (case record of
        [] \<Rightarrow> None
      | t # r0 \<Rightarrow>
          if t \<noteq> CHR ''V'' then None
          else case split_nul r0 of
            None \<Rightarrow> None
          | Some (nm, r1) \<Rightarrow>
              (case split_nul r1 of
                 None \<Rightarrow> None
               | Some (cnt, r2) \<Rightarrow>
                   (case parse_nat cnt of
                      None \<Rightarrow> None
                    | Some n \<Rightarrow>
                        (case take_elements n r2 of
                           Some (es, []) \<Rightarrow>
                             (case (utf8_decode nm, utf8_decode_all es) of
                                (Inr name, Some xs) \<Rightarrow> Some (name, n, xs)
                              | _ \<Rightarrow> None)
                         | _ \<Rightarrow> None))))"

section \<open>Facts about the library functions\<close>

subsection \<open>UTF-8: decoding undoes encoding\<close>

lemma split3: "(c::nat) div 0x1000 * 0x1000 + c div 0x40 mod 0x40 * 0x40 + c mod 0x40 = c"
proof -
  define q where "q = c div 0x40"
  have a: "c div 0x1000 = q div 0x40" by (simp add: q_def div_mult2_eq[symmetric])
  have b: "q div 0x40 * 0x40 + q mod 0x40 = q" by simp
  have g: "x * 0x1000 + y * 0x40 = (x * 0x40 + y) * 0x40" for x y :: nat by simp
  have "q div 0x40 * 0x1000 + q mod 0x40 * 0x40 = q * 0x40"
    by (simp only: g b)
  moreover have "q * 0x40 + c mod 0x40 = c" by (simp add: q_def)
  ultimately show ?thesis by (simp only: a q_def[symmetric])
qed

lemma split4: "(c::nat) div 0x40000 * 0x40000 + c div 0x1000 mod 0x40 * 0x1000 + c div 0x40 mod 0x40 * 0x40 + c mod 0x40 = c"
proof -
  define q where "q = c div 0x1000"
  have a: "c div 0x40000 = q div 0x40" by (simp add: q_def div_mult2_eq[symmetric])
  have b: "q div 0x40 * 0x40 + q mod 0x40 = q" by simp
  have g: "x * 0x40000 + y * 0x1000 = (x * 0x40 + y) * 0x1000" for x y :: nat by simp
  have "q div 0x40 * 0x40000 + q mod 0x40 * 0x1000 = q * 0x1000"
    by (simp only: g b)
  then have "c div 0x40000 * 0x40000 + c div 0x1000 mod 0x40 * 0x1000 = c div 0x1000 * 0x1000"
    by (simp only: a q_def[symmetric])
  then show ?thesis using split3[of c] by (simp only:)
qed

lemma utf8_encode_append:
  "utf8_encode (a @ b) =
     (case utf8_encode a of Inl e \<Rightarrow> Inl e
      | Inr x \<Rightarrow> (case utf8_encode b of Inl e \<Rightarrow> Inl e | Inr y \<Rightarrow> Inr (x @ y)))"
  by (induction a) (auto split: sum.splits)

lemma is_cont_byte: "is_cont (char_of (0x80 + x mod 0x40 :: nat))"
  by (simp add: is_cont_def)

lemma cont_bits_byte: "cont_bits (char_of (0x80 + x mod 0x40 :: nat)) = x mod 0x40"
  by (simp add: cont_bits_def)

lemma of_char_lead: "n < 0x100 \<Longrightarrow> (of_char (char_of (n::nat)) :: nat) = n"
  by simp

lemma utf8_decode_1:
  assumes "c < 0x80"
  shows "utf8_decode (char_of c # r) = (case utf8_decode r of Inl e \<Rightarrow> Inl e | Inr cs \<Rightarrow> Inr (c # cs))"
  using assms by (simp add: Let_def)

lemma utf8_decode_2:
  assumes "0x80 \<le> c" "c < 0x800"
  shows "utf8_decode (char_of (0xC0 + c div 0x40) # char_of (0x80 + c mod 0x40) # r)
         = (case utf8_decode r of Inl e \<Rightarrow> Inl e | Inr cs \<Rightarrow> Inr (c # cs))"
proof -
  have d: "c div 0x40 < 0x20" "2 \<le> c div 0x40" using assms by simp_all
  have l: "(of_char (char_of (0xC0 + c div 0x40)) :: nat) = 0xC0 + c div 0x40"
    using d by (intro of_char_lead) simp
  have e: "(0xC0 + c div 0x40 - 0xC0) * 0x40 + c mod 0x40 = c" by simp
  show ?thesis
    using d assms
    by (simp only: utf8_decode.simps Let_def l is_cont_byte cont_bits_byte list.case e) simp
qed

lemma utf8_decode_3:
  assumes "0x800 \<le> c" "c < 0x10000" "\<not> is_surrogate c"
  shows "utf8_decode (char_of (0xE0 + c div 0x1000) # char_of (0x80 + c div 0x40 mod 0x40) # char_of (0x80 + c mod 0x40) # r)
         = (case utf8_decode r of Inl e \<Rightarrow> Inl e | Inr cs \<Rightarrow> Inr (c # cs))"
proof -
  have d: "c div 0x1000 < 0x10" using assms by simp
  have l: "(of_char (char_of (0xE0 + c div 0x1000)) :: nat) = 0xE0 + c div 0x1000"
    using d by (intro of_char_lead) simp
  have e: "(0xE0 + c div 0x1000 - 0xE0) * 0x1000 + c div 0x40 mod 0x40 * 0x40 + c mod 0x40 = c"
    using split3[of c] by simp
  show ?thesis
    using d assms
    by (simp only: utf8_decode.simps Let_def l is_cont_byte cont_bits_byte list.case e) simp
qed

lemma utf8_decode_4:
  assumes "0x10000 \<le> c" "c < 0x110000"
  shows "utf8_decode (char_of (0xF0 + c div 0x40000) # char_of (0x80 + c div 0x1000 mod 0x40) # char_of (0x80 + c div 0x40 mod 0x40) # char_of (0x80 + c mod 0x40) # r)
         = (case utf8_decode r of Inl e \<Rightarrow> Inl e | Inr cs \<Rightarrow> Inr (c # cs))"
proof -
  have d: "c div 0x40000 < 0x8" using assms by simp
  have l: "(of_char (char_of (0xF0 + c div 0x40000)) :: nat) = 0xF0 + c div 0x40000"
    using d by (intro of_char_lead) simp
  have e: "(0xF0 + c div 0x40000 - 0xF0) * 0x40000 + c div 0x1000 mod 0x40 * 0x1000 + c div 0x40 mod 0x40 * 0x40 + c mod 0x40 = c"
    using split4[of c] by simp
  show ?thesis
    using d assms
    by (simp only: utf8_decode.simps Let_def l is_cont_byte cont_bits_byte list.case e) simp
qed

lemma utf8_char_decode:
  assumes "utf8_char c = Inr b"
  shows "utf8_decode (b @ r) = (case utf8_decode r of Inl e \<Rightarrow> Inl e | Inr cs \<Rightarrow> Inr (c # cs))"
proof -
  consider "c < 0x80" | "0x80 \<le> c" "c < 0x800" | "0x800 \<le> c" "c < 0x10000" "\<not> is_surrogate c"
    | "0x10000 \<le> c" "c < 0x110000"
    using assms by (auto simp: utf8_char_def split: if_splits)
  then show ?thesis
  proof cases
    case 1
    then have "b = [char_of c]" using assms by (simp add: utf8_char_def)
    then show ?thesis using utf8_decode_1[OF 1] by simp
  next
    case 2
    then have "b = [char_of (0xC0 + c div 0x40), char_of (0x80 + c mod 0x40)]"
      using assms by (simp add: utf8_char_def)
    then show ?thesis using utf8_decode_2[OF 2] by simp
  next
    case 3
    then have "b = [char_of (0xE0 + c div 0x1000), char_of (0x80 + c div 0x40 mod 0x40),
             char_of (0x80 + c mod 0x40)]"
      using assms by (simp add: utf8_char_def)
    then show ?thesis using utf8_decode_3[OF 3] by simp
  next
    case 4
    then have "\<not> is_surrogate c" by (simp add: is_surrogate_def)
    with 4 have "b = [char_of (0xF0 + c div 0x40000), char_of (0x80 + c div 0x1000 mod 0x40),
             char_of (0x80 + c div 0x40 mod 0x40), char_of (0x80 + c mod 0x40)]"
      using assms by (simp add: utf8_char_def)
    then show ?thesis using utf8_decode_4[OF 4] by simp
  qed
qed

lemma utf8_roundtrip: "utf8_encode s = Inr b \<Longrightarrow> utf8_decode b = Inr s"
proof (induction s arbitrary: b)
  case Nil
  then show ?case by simp
next
  case (Cons c cs)
  from Cons.prems obtain x y where x: "utf8_char c = Inr x" and y: "utf8_encode cs = Inr y"
    and b: "b = x @ y"
    by (auto split: sum.splits)
  show ?case unfolding b using utf8_char_decode[OF x, of y] Cons.IH[OF y] by simp
qed

subsection \<open>NUL bytes, decimal text, joining\<close>

lemma char_of_nat_eq: "(char_of (n::nat) = c) = (n mod 256 = of_char c)"
  by (simp add: char_of_eq_iff take_bit_eq_mod)

lemma NUL_char_of: "NUL = char_of (0::nat)"
  by (simp add: NUL_def char_of_nat_eq eq_commute[of "CHR 0x00"])

lemma char_of_eq_NUL: "(char_of (n::nat) = NUL) = (n mod 256 = 0)"
  by (simp add: NUL_char_of)

lemma utf8_char_nul: "utf8_char c = Inr b \<Longrightarrow> (NUL \<in> set b) = (c = 0)"
  by (auto simp: utf8_char_def char_of_eq_NUL eq_commute[of NUL] split: if_splits)

lemma utf8_encode_nul: "utf8_encode s = Inr b \<Longrightarrow> (NUL \<in> set b) = (0 \<in> set s)"
proof (induction s arbitrary: b)
  case Nil
  then show ?case by simp
next
  case (Cons c cs)
  from Cons.prems obtain x y where x: "utf8_char c = Inr x" and y: "utf8_encode cs = Inr y"
    and b: "b = x @ y"
    by (auto split: sum.splits)
  show ?case using utf8_char_nul[OF x] Cons.IH[OF y] by (auto simp: b)
qed

lemma utf8_encode_ascii: "\<forall>c\<in>set s. c < 0x80 \<Longrightarrow> utf8_encode s = Inr (map char_of s)"
  by (induction s) (simp_all add: utf8_char_def)

lemma str_nat_digits: "c \<in> set (str_nat n) \<Longrightarrow> 48 \<le> c \<and> c \<le> 57"
proof (induction n arbitrary: c rule: str_nat.induct)
  case (1 n)
  show ?case
  proof (cases "n < 10")
    case True
    then show ?thesis using "1.prems" by (simp add: str_nat.simps[of n])
  next
    case False
    then have "c \<in> set (str_nat (n div 10)) \<or> c = 48 + n mod 10"
      using "1.prems" by (auto simp add: str_nat.simps[of n])
    then show ?thesis
    proof
      assume "c \<in> set (str_nat (n div 10))"
      then show ?thesis using "1.IH"[OF False] by blast
    next
      assume c: "c = 48 + n mod 10"
      have "n mod 10 < 10" by simp
      then show ?thesis unfolding c by linarith
    qed
  qed
qed

lemma str_nat_nonempty: "str_nat n \<noteq> []"
  by (subst str_nat.simps) simp

lemma utf8_encode_str_nat: "utf8_encode (str_nat n) = Inr (decimal n)"
  unfolding decimal_def
  by (rule utf8_encode_ascii) (use str_nat_digits in fastforce)

lemma decimal_no_NUL: "NUL \<notin> set (decimal n)"
proof
  assume "NUL \<in> set (decimal n)"
  then obtain c where c: "c \<in> set (str_nat n)" and e: "char_of c = NUL"
    by (auto simp: decimal_def)
  from str_nat_digits[OF c] have "c mod 256 = c" by simp
  with e str_nat_digits[OF c] show False by (simp add: char_of_eq_NUL)
qed

lemma is_digit_decimal: "list_all is_digit (decimal n)"
proof -
  have "is_digit (char_of c)" if "c \<in> set (str_nat n)" for c
    using str_nat_digits[OF that] by (simp add: is_digit_def)
  then show ?thesis by (simp add: decimal_def list_all_iff)
qed

lemma foldl_decimal:
  "foldl (\<lambda>a c. 10 * a + (of_char c - 48)) 0 (decimal n) = n"
proof (induction n rule: str_nat.induct)
  case (1 n)
  show ?case
  proof (cases "n < 10")
    case True
    then show ?thesis by (simp add: decimal_def str_nat.simps[of n])
  next
    case False
    have d: "decimal n = decimal (n div 10) @ [char_of (48 + n mod 10)]"
      using False by (simp add: decimal_def str_nat.simps[of n])
    have m: "n mod 10 < 10" by simp
    have o: "(of_char (char_of (48 + n mod 10)) :: nat) = 48 + n mod 10"
      using m by (intro of_char_lead) linarith
    show ?thesis unfolding d using "1.IH"[OF False] by (simp add: o del: of_char_of)
  qed
qed

lemma parse_nat_decimal: "parse_nat (decimal n) = Some n"
  using str_nat_nonempty[of n]
  by (simp add: parse_nat_def is_digit_decimal foldl_decimal) (simp add: decimal_def)

lemma split_nul_append: "NUL \<notin> set x \<Longrightarrow> split_nul (x @ NUL # r) = Some (x, r)"
  by (induction x) auto

lemma py_join_sep: "ys \<noteq> [] \<Longrightarrow> py_join sep ys @ sep = concat (map (\<lambda>x. x @ sep) ys)"
  by (induction sep ys rule: py_join.induct) simp_all

lemma utf8_char_0: "utf8_char 0 = Inr [NUL]"
  by (simp add: utf8_char_def NUL_char_of)

lemma utf8_encode_NUL: "utf8_encode [0] = Inr [NUL]"
  by (simp add: utf8_char_0)

lemma utf8_encode_F: "utf8_encode (ascii ''F'') = Inr ''F''"
  by (simp add: ascii_def utf8_char_def char_of_nat_eq)

lemma utf8_encode_V: "utf8_encode (ascii ''V'') = Inr ''V''"
  by (simp add: ascii_def utf8_char_def char_of_nat_eq)

lemma utf8_encode_scalar_text:
  assumes "utf8_encode name = Inr bn" "utf8_encode s = Inr bs"
  shows "utf8_encode (ascii ''F'' @ name @ [0] @ str_nat k @ [0] @ s @ [0])
         = Inr (''F'' @ bn @ [NUL] @ decimal k @ [NUL] @ bs @ [NUL])"
  using assms
  by (simp only: utf8_encode_append utf8_encode_F utf8_encode_NUL utf8_encode_str_nat sum.case)

lemma decode_scalar_record:
  assumes "utf8_encode name = Inr bn" "utf8_encode s = Inr bs" "0 \<notin> set name"
  shows "decode_scalar (''F'' @ bn @ [NUL] @ decimal (length bs) @ [NUL] @ bs @ [NUL])
         = Some (name, length bs, s)"
proof -
  have n: "NUL \<notin> set bn" using utf8_encode_nul[OF assms(1)] assms(3) by simp
  have s1: "split_nul (bn @ [NUL] @ decimal (length bs) @ [NUL] @ bs @ [NUL])
            = Some (bn, decimal (length bs) @ [NUL] @ bs @ [NUL])"
    using split_nul_append[OF n] by simp
  have s2: "split_nul (decimal (length bs) @ [NUL] @ bs @ [NUL]) = Some (decimal (length bs), bs @ [NUL])"
    using split_nul_append[OF decimal_no_NUL] by simp
  show ?thesis
    using s1 s2
    by (simp add: decode_scalar_def parse_nat_decimal
        utf8_roundtrip[OF assms(1)] utf8_roundtrip[OF assms(2)])
qed

lemma utf8_encode_elements:
  "list_all2 (\<lambda>x b. utf8_encode x = Inr b) xs bxs \<Longrightarrow>
   utf8_encode (concat (map (\<lambda>x. x @ [0]) xs)) = Inr (concat (map (\<lambda>b. b @ [NUL]) bxs))"
  by (induction rule: list_all2_induct) (simp_all add: utf8_encode_append utf8_char_0)

lemma take_elements_record:
  "list_all2 (\<lambda>x b. utf8_encode x = Inr b) xs bxs \<Longrightarrow> \<forall>x\<in>set xs. 0 \<notin> set x \<Longrightarrow>
   take_elements (length xs) (concat (map (\<lambda>b. b @ [NUL]) bxs) @ r) = Some (bxs, r)"
proof (induction rule: list_all2_induct)
  case Nil
  then show ?case by simp
next
  case (Cons x xs b bs)
  have n: "NUL \<notin> set b" using utf8_encode_nul[OF Cons.hyps(1)] Cons.prems by simp
  show ?case using split_nul_append[OF n] Cons by simp
qed

lemma utf8_decode_all_record:
  "list_all2 (\<lambda>x b. utf8_encode x = Inr b) xs bxs \<Longrightarrow> utf8_decode_all bxs = Some xs"
  by (induction rule: list_all2_induct) (simp_all add: utf8_roundtrip)

lemma decode_vector_record:
  assumes "utf8_encode name = Inr bn" "list_all2 (\<lambda>x b. utf8_encode x = Inr b) xs bxs"
    "0 \<notin> set name" "\<forall>x\<in>set xs. 0 \<notin> set x"
  shows "decode_vector (''V'' @ bn @ [NUL] @ decimal (length xs) @ [NUL] @ concat (map (\<lambda>b. b @ [NUL]) bxs))
         = Some (name, length xs, xs)"
proof -
  let ?els = "concat (map (\<lambda>b. b @ [NUL]) bxs)"
  have n: "NUL \<notin> set bn" using utf8_encode_nul[OF assms(1)] assms(3) by simp
  have s1: "split_nul (bn @ [NUL] @ decimal (length xs) @ [NUL] @ ?els)
            = Some (bn, decimal (length xs) @ [NUL] @ ?els)"
    using split_nul_append[OF n] by simp
  have s2: "split_nul (decimal (length xs) @ [NUL] @ ?els) = Some (decimal (length xs), ?els)"
    using split_nul_append[OF decimal_no_NUL] by simp
  have t: "take_elements (length xs) ?els = Some (bxs, [])"
    using take_elements_record[OF assms(2,4), of "[]"] by simp
  show ?thesis
    using s1 s2
    by (simp add: decode_vector_def parse_nat_decimal t
        utf8_roundtrip[OF assms(1)] utf8_decode_all_record[OF assms(2)])
qed

section \<open>Facts about the client\<close>

subsection \<open>Substrings and the first match\<close>

lemma take_eq_prefix: "(take (length sub) s = sub) = (\<exists>post. s = sub @ post)"
proof
  assume "take (length sub) s = sub"
  then have "s = sub @ drop (length sub) s" by (metis append_take_drop_id)
  then show "\<exists>post. s = sub @ post" ..
next
  assume "\<exists>post. s = sub @ post"
  then show "take (length sub) s = sub" by auto
qed

lemma contains_text_Nil: "contains_text [] sub = (sub = [])"
  by (auto simp: contains_text_def)

lemma contains_text_Cons:
  "contains_text (c # cs) sub = ((\<exists>post. c # cs = sub @ post) \<or> contains_text cs sub)"
proof
  assume "contains_text (c # cs) sub"
  then obtain pre post where e: "c # cs = pre @ sub @ post" by (auto simp: contains_text_def)
  show "(\<exists>post. c # cs = sub @ post) \<or> contains_text cs sub"
  proof (cases pre)
    case Nil
    with e show ?thesis by auto
  next
    case (Cons a pre')
    with e have "cs = pre' @ sub @ post" by simp
    then show ?thesis by (auto simp: contains_text_def)
  qed
next
  assume "(\<exists>post. c # cs = sub @ post) \<or> contains_text cs sub"
  then show "contains_text (c # cs) sub"
  proof
    assume "\<exists>post. c # cs = sub @ post"
    then obtain post where "c # cs = [] @ sub @ post" by auto
    then show ?thesis unfolding contains_text_def by blast
  next
    assume "contains_text cs sub"
    then obtain pre post where "cs = pre @ sub @ post" by (auto simp: contains_text_def)
    then have "c # cs = (c # pre) @ sub @ post" by simp
    then show ?thesis unfolding contains_text_def by blast
  qed
qed

lemma py_in_str_iff: "py_in_str sub s = contains_text s sub"
proof (induction s)
  case Nil
  show ?case by (simp add: contains_text_Nil)
next
  case (Cons c cs)
  show ?case
    by (simp only: py_in_str.simps take_eq_prefix Cons.IH contains_text_Cons)
qed

lemma hd_filter_first:
  "i < length xs \<Longrightarrow> P (xs ! i) \<Longrightarrow> \<forall>j<i. \<not> P (xs ! j) \<Longrightarrow> hd (filter P xs) = xs ! i"
proof (induction xs arbitrary: i)
  case Nil
  then show ?case by simp
next
  case (Cons x xs)
  show ?case
  proof (cases i)
    case 0
    with Cons.prems show ?thesis by simp
  next
    case (Suc k)
    with Cons.prems have nx: "\<not> P x" by auto
    have k: "k < length xs" "P (xs ! k)" "\<forall>j<k. \<not> P (xs ! j)"
      using Cons.prems Suc by auto
    show ?thesis using Cons.IH[OF k] nx Suc by simp
  qed
qed

subsection \<open>The request and the reply\<close>

lemma post_body_deflate: "post_body deflate p = deflate 9 p"
  by (simp add: post_body_def compress_def slice_2_m4_def zlib_header_def Let_def be32_def)

lemma execute_reply:
  assumes "build_payload (request_data (resolve_language (languages self) language) code inputs
             compiler_flags Cl_options arguments) = Inr p"
    and "replies (session self) = r # rs"
  shows "execute deflate self code language inputs compiler_flags Cl_options arguments
         = (handle_response r (resolve_language (languages self) language),
            self\<lparr>session := (session self)\<lparr>replies := rs,
                       posted := posted (session self) @ [(API_URL, post_body deflate p)]\<rparr>\<rparr>)"
  by (simp add: execute_def Let_def session_post_def assms)

lemma utf8_encode_append_Inr:
  "utf8_encode (a @ b) = Inr r \<Longrightarrow>
   \<exists>x y. utf8_encode a = Inr x \<and> utf8_encode b = Inr y \<and> r = x @ y"
  by (auto simp: utf8_encode_append split: sum.splits)

lemma format_payload_PyStr_Inr:
  assumes "s \<noteq> []" "format_payload name (PyStr s) = Inr r"
  shows "\<exists>bn bs. utf8_encode name = Inr bn \<and> utf8_encode s = Inr bs
           \<and> r = ''F'' @ bn @ [NUL] @ decimal (length bs) @ [NUL] @ bs @ [NUL]"
proof -
  from assms obtain bs where bs: "utf8_encode s = Inr bs"
    and r: "utf8_encode (ascii ''F'' @ name @ [0] @ str_nat (length bs) @ [0] @ s @ [0]) = Inr r"
    by (auto split: sum.splits)
  from utf8_encode_append_Inr[OF r] obtain y where
    "utf8_encode (name @ [0] @ str_nat (length bs) @ [0] @ s @ [0]) = Inr y" by blast
  from utf8_encode_append_Inr[OF this] obtain bn where bn: "utf8_encode name = Inr bn" by blast
  from r utf8_encode_scalar_text[OF bn bs, of "length bs"]
  have "r = ''F'' @ bn @ [NUL] @ decimal (length bs) @ [NUL] @ bs @ [NUL]" by simp
  with bn bs show ?thesis by blast
qed

lemma decimal_1: "decimal (Suc 0) = ''1''"
  by (simp add: decimal_def str_nat.simps char_of_nat_eq)

lemma format_payload_singleton_Inr:
  assumes "format_payload name (PyList [l]) = Inr r"
  shows "\<exists>bn bl. utf8_encode name = Inr bn \<and> utf8_encode l = Inr bl
           \<and> r = ''V'' @ bn @ [NUL] @ ''1'' @ [NUL] @ bl @ [NUL]"
proof -
  from assms have r: "utf8_encode (ascii ''V'' @ name @ [0] @ str_nat 1 @ [0] @ l @ [0]) = Inr r"
    by simp
  from utf8_encode_append_Inr[OF r] obtain y where
    y: "utf8_encode (name @ [0] @ str_nat 1 @ [0] @ l @ [0]) = Inr y" by blast
  from utf8_encode_append_Inr[OF y] obtain bn y2 where bn: "utf8_encode name = Inr bn"
    and y2: "utf8_encode ([0] @ str_nat 1 @ [0] @ l @ [0]) = Inr y2" by blast
  from utf8_encode_append_Inr[OF y2] obtain y3 where
    y3: "utf8_encode (str_nat 1 @ [0] @ l @ [0]) = Inr y3" by blast
  from utf8_encode_append_Inr[OF y3] obtain y4 where
    y4: "utf8_encode ([0] @ l @ [0]) = Inr y4" by blast
  from utf8_encode_append_Inr[OF y4] obtain y5 where
    y5: "utf8_encode (l @ [0]) = Inr y5" by blast
  from utf8_encode_append_Inr[OF y5] obtain bl where bl: "utf8_encode l = Inr bl" by blast
  have "utf8_encode (ascii ''V'' @ name @ [0] @ str_nat 1 @ [0] @ l @ [0])
        = Inr (''V'' @ bn @ [NUL] @ decimal 1 @ [NUL] @ bl @ [NUL])"
    by (simp only: utf8_encode_append utf8_encode_V utf8_encode_NUL utf8_encode_str_nat
        bn bl sum.case)
  with r have "r = ''V'' @ bn @ [NUL] @ ''1'' @ [NUL] @ bl @ [NUL]" by (simp add: decimal_1)
  with bn bl show ?thesis by blast
qed

lemma utf8_encode_lang: "utf8_encode (ascii ''lang'') = Inr ''lang''"
  by (simp add: ascii_def utf8_char_def char_of_nat_eq)

lemma utf8_encode_code_tio: "utf8_encode (ascii ''.code.tio'') = Inr ''.code.tio''"
  by (simp add: ascii_def utf8_char_def char_of_nat_eq)

lemma utf8_encode_input_tio: "utf8_encode (ascii ''.input.tio'') = Inr ''.input.tio''"
  by (simp add: ascii_def utf8_char_def char_of_nat_eq)

lemma build_payload_request_data:
  "(build_payload (request_data l code inputs compiler_flags Cl_options arguments) = Inr p) =
     (\<exists>r1 r2 r3 r4 r5 r6.
        format_payload (ascii ''lang'') (PyList [l]) = Inr r1
      \<and> format_payload (ascii ''.code.tio'') (PyStr code) = Inr r2
      \<and> format_payload (ascii ''.input.tio'') (of_opt_str inputs) = Inr r3
      \<and> format_payload (ascii ''TIO_CFLAGS'') (of_opt_list compiler_flags) = Inr r4
      \<and> format_payload (ascii ''TIO_OPTIONS'') (of_opt_list Cl_options) = Inr r5
      \<and> format_payload (ascii ''args'') (of_opt_list arguments) = Inr r6
      \<and> p = r1 @ r2 @ r3 @ r4 @ r5 @ r6 @ ''R'')"
  unfolding build_payload_def request_data_def join_map.simps
  by (auto split: sum.splits)

lemma example_payload:
  "build_payload (request_data (resolve_language [] (ascii ''xyz'')) (ascii ''print(1)'')
       (Some []) (Some []) (Some []) (Some []))
     = Inr (''Vlang'' @ [NUL] @ ''1'' @ [NUL] @ ''xyz'' @ [NUL]
            @ ''F.code.tio'' @ [NUL] @ ''8'' @ [NUL] @ ''print(1)'' @ [NUL] @ ''R'')"
  by (simp add: build_payload_def request_data_def resolve_language_def ascii_def utf8_char_def
        str_nat.simps char_of_nat_eq NUL_def of_opt_str_def of_opt_list_def)

subsection \<open>The pattern of the error message\<close>

lemma rx_match_Lit: "rx_match (Lit l # p) (l @ s) = rx_match p s"
  by simp

lemma rx_match_OptChar_skip: "rx_match p s \<Longrightarrow> rx_match (OptChar c # p) s"
  by (cases s) simp_all

lemma rx_match_OptChar_take: "rx_match p s \<Longrightarrow> rx_match (OptChar c # p) (c # s)"
  by simp

lemma rx_match_OptChar:
  "sp = [] \<or> sp = [c] \<Longrightarrow> rx_match p s \<Longrightarrow> rx_match (OptChar c # p) (sp @ s)"
  using rx_match_OptChar_skip rx_match_OptChar_take by fastforce

lemma rx_match_AnyPlus:
  "name \<noteq> [] \<Longrightarrow> 10 \<notin> set name \<Longrightarrow> rx_match p s \<Longrightarrow> rx_match (AnyPlus # p) (name @ s)"
proof (induction name)
  case Nil
  then show ?case by simp
next
  case (Cons x xs)
  show ?case
  proof (cases xs)
    case Nil
    with Cons.prems show ?thesis by simp
  next
    case (Cons y ys)
    then have "rx_match (AnyPlus # p) (xs @ s)" using Cons.IH Cons.prems by simp
    then show ?thesis using Cons.prems by simp
  qed
qed

lemma rx_match_AnyChar: "c \<noteq> 10 \<Longrightarrow> rx_match p s \<Longrightarrow> rx_match (AnyChar # p) (c # s)"
  by simp

lemma re_search_here: "rx_match p s \<Longrightarrow> re_search p s"
  by (cases s) simp_all

lemma re_search_append: "rx_match p s \<Longrightarrow> re_search p (pre @ s)"
  by (induction pre) (simp_all add: re_search_here)

lemma re_search_D: "re_search p s \<Longrightarrow> \<exists>pre s'. s = pre @ s' \<and> rx_match p s'"
proof (induction s)
  case Nil
  then show ?case by simp
next
  case (Cons x xs)
  from Cons.prems have "rx_match p (x # xs) \<or> re_search p xs" by simp
  then show ?case
  proof
    assume "rx_match p (x # xs)"
    then have "x # xs = [] @ (x # xs) \<and> rx_match p (x # xs)" by simp
    then show ?thesis by blast
  next
    assume "re_search p xs"
    from Cons.IH[OF this] obtain pre s' where "xs = pre @ s'" "rx_match p s'" by blast
    then have "x # xs = (x # pre) @ s' \<and> rx_match p s'" by simp
    then show ?thesis by blast
  qed
qed

lemma rx_match_Lit_D: "rx_match (Lit l # p) s \<Longrightarrow> \<exists>s'. s = l @ s' \<and> rx_match p s'"
proof -
  assume "rx_match (Lit l # p) s"
  then have t: "take (length l) s = l" and m: "rx_match p (drop (length l) s)" by simp_all
  have "s = l @ drop (length l) s" using t by (metis append_take_drop_id)
  with m show ?thesis by blast
qed

lemma rx_match_OptChar_D:
  "rx_match (OptChar c # p) s \<Longrightarrow> \<exists>sp s'. s = sp @ s' \<and> (sp = [] \<or> sp = [c]) \<and> rx_match p s'"
proof (cases s)
  case Nil
  assume "rx_match (OptChar c # p) s"
  with Nil have "s = [] @ [] \<and> rx_match p []" by simp
  then show ?thesis by blast
next
  case (Cons x xs)
  assume "rx_match (OptChar c # p) s"
  with Cons have "(x = c \<and> rx_match p xs) \<or> rx_match p (x # xs)" by simp
  then show ?thesis
  proof
    assume "x = c \<and> rx_match p xs"
    with Cons have "s = [c] @ xs \<and> rx_match p xs" by simp
    then show ?thesis by blast
  next
    assume "rx_match p (x # xs)"
    with Cons have "s = [] @ s \<and> rx_match p s" by simp
    then show ?thesis by blast
  qed
qed

lemma rx_match_AnyPlus_D:
  "rx_match (AnyPlus # p) s \<Longrightarrow>
   \<exists>name s'. s = name @ s' \<and> name \<noteq> [] \<and> 10 \<notin> set name \<and> rx_match p s'"
proof (induction s)
  case Nil
  then show ?case by simp
next
  case (Cons x xs)
  from Cons.prems have x: "x \<noteq> 10" and d: "rx_match (AnyPlus # p) xs \<or> rx_match p xs"
    by simp_all
  from d show ?case
  proof
    assume "rx_match (AnyPlus # p) xs"
    from Cons.IH[OF this] obtain name s' where
      "xs = name @ s'" "name \<noteq> []" "10 \<notin> set name" "rx_match p s'" by blast
    with x have "x # xs = (x # name) @ s' \<and> x # name \<noteq> [] \<and> 10 \<notin> set (x # name) \<and> rx_match p s'"
      by simp
    then show ?thesis by blast
  next
    assume "rx_match p xs"
    with x have "x # xs = [x] @ xs \<and> [x] \<noteq> [] \<and> 10 \<notin> set [x] \<and> rx_match p xs" by simp
    then show ?thesis by blast
  qed
qed

lemma rx_match_AnyChar_D:
  "rx_match (AnyChar # p) s \<Longrightarrow> \<exists>c s'. s = c # s' \<and> c \<noteq> 10 \<and> rx_match p s'"
  by (cases s) simp_all

lemma language_not_found_match:
  assumes "sp1 = [] \<or> sp1 = [32]" "sp2 = [] \<or> sp2 = [32]" "name \<noteq> []" "10 \<notin> set name" "c \<noteq> 10"
  shows "re_search language_not_found_re
           (pre @ ascii ''The language'' @ sp1 @ [39] @ name @ [39] @ sp2
              @ ascii ''could not be found on the server'' @ [c] @ post)"
proof -
  have 1: "rx_match [AnyChar] ([c] @ post)" using assms(5) by simp
  have 2: "rx_match [Lit (ascii ''could not be found on the server''), AnyChar]
             (ascii ''could not be found on the server'' @ [c] @ post)"
    using 1 by (simp only: rx_match_Lit)
  have 3: "rx_match [OptChar 32, Lit (ascii ''could not be found on the server''), AnyChar]
             (sp2 @ ascii ''could not be found on the server'' @ [c] @ post)"
    using rx_match_OptChar[OF assms(2) 2] .
  have 4: "rx_match [Lit [39], OptChar 32, Lit (ascii ''could not be found on the server''), AnyChar]
             ([39] @ sp2 @ ascii ''could not be found on the server'' @ [c] @ post)"
    using 3 by (simp only: rx_match_Lit)
  have 5: "rx_match [AnyPlus, Lit [39], OptChar 32, Lit (ascii ''could not be found on the server''), AnyChar]
             (name @ [39] @ sp2 @ ascii ''could not be found on the server'' @ [c] @ post)"
    using rx_match_AnyPlus[OF assms(3,4) 4] .
  have 6: "rx_match [Lit [39], AnyPlus, Lit [39], OptChar 32, Lit (ascii ''could not be found on the server''), AnyChar]
             ([39] @ name @ [39] @ sp2 @ ascii ''could not be found on the server'' @ [c] @ post)"
    using 5 by (simp only: rx_match_Lit)
  have 7: "rx_match [OptChar 32, Lit [39], AnyPlus, Lit [39], OptChar 32, Lit (ascii ''could not be found on the server''), AnyChar]
             (sp1 @ [39] @ name @ [39] @ sp2 @ ascii ''could not be found on the server'' @ [c] @ post)"
    using rx_match_OptChar[OF assms(1) 6] .
  have 8: "rx_match language_not_found_re
             (ascii ''The language'' @ sp1 @ [39] @ name @ [39] @ sp2 @ ascii ''could not be found on the server'' @ [c] @ post)"
    unfolding language_not_found_re_def using 7 by (simp only: rx_match_Lit)
  show ?thesis using re_search_append[OF 8] .
qed

lemma language_not_found_match_D:
  assumes "re_search language_not_found_re data"
  shows "\<exists>pre sp1 name sp2 c post.
           data = pre @ ascii ''The language'' @ sp1 @ [39] @ name @ [39] @ sp2
              @ ascii ''could not be found on the server'' @ [c] @ post
         \<and> (sp1 = [] \<or> sp1 = [32]) \<and> (sp2 = [] \<or> sp2 = [32]) \<and> name \<noteq> [] \<and> 10 \<notin> set name \<and> c \<noteq> 10"
proof -
  from re_search_D[OF assms] obtain pre s0 where
    d0: "data = pre @ s0" and m0: "rx_match language_not_found_re s0" by blast
  from rx_match_Lit_D[OF m0[unfolded language_not_found_re_def]] obtain s1 where
    d1: "s0 = ascii ''The language'' @ s1"
    and m1: "rx_match [OptChar 32, Lit [39], AnyPlus, Lit [39], OptChar 32,
               Lit (ascii ''could not be found on the server''), AnyChar] s1" by blast
  from rx_match_OptChar_D[OF m1] obtain sp1 s2 where
    d2: "s1 = sp1 @ s2" and sp1: "sp1 = [] \<or> sp1 = [32]"
    and m2: "rx_match [Lit [39], AnyPlus, Lit [39], OptChar 32,
               Lit (ascii ''could not be found on the server''), AnyChar] s2" by blast
  from rx_match_Lit_D[OF m2] obtain s3 where
    d3: "s2 = [39] @ s3"
    and m3: "rx_match [AnyPlus, Lit [39], OptChar 32,
               Lit (ascii ''could not be found on the server''), AnyChar] s3" by blast
  from rx_match_AnyPlus_D[OF m3] obtain name s4 where
    d4: "s3 = name @ s4" and name: "name \<noteq> []" "10 \<notin> set name"
    and m4: "rx_match [Lit [39], OptChar 32,
               Lit (ascii ''could not be found on the server''), AnyChar] s4" by blast
  from rx_match_Lit_D[OF m4] obtain s5 where
    d5: "s4 = [39] @ s5"
    and m5: "rx_match [OptChar 32, Lit (ascii ''could not be found on the server''), AnyChar] s5"
    by blast
  from rx_match_OptChar_D[OF m5] obtain sp2 s6 where
    d6: "s5 = sp2 @ s6" and sp2: "sp2 = [] \<or> sp2 = [32]"
    and m6: "rx_match [Lit (ascii ''could not be found on the server''), AnyChar] s6" by blast
  from rx_match_Lit_D[OF m6] obtain s7 where
    d7: "s6 = ascii ''could not be found on the server'' @ s7"
    and m7: "rx_match [AnyChar] s7" by blast
  from rx_match_AnyChar_D[OF m7] obtain c post where
    d8: "s7 = c # post" and c: "c \<noteq> 10" by blast
  have "data = pre @ ascii ''The language'' @ sp1 @ [39] @ name @ [39] @ sp2
              @ ascii ''could not be found on the server'' @ [c] @ post"
    by (simp only: d0 d1 d2 d3 d4 d5 d6 d7 d8 append_Cons append_Nil)
  with sp1 sp2 name c show ?thesis by blast
qed

lemma language_not_found_needs_quote:
  assumes "39 \<notin> set data"
  shows "\<not> re_search language_not_found_re data"
proof
  assume "re_search language_not_found_re data"
  from language_not_found_match_D[OF this] obtain pre sp1 name r where
    "data = pre @ ascii ''The language'' @ sp1 @ [39] @ r" by blast
  then have "39 \<in> set data" by simp
  with assms show False by blast
qed

lemma utf8_decode_ascii:
  "\<forall>c\<in>set bs. (of_char c :: nat) < 0x80 \<Longrightarrow> utf8_decode bs = Inr (ascii bs)"
  by (induction bs) (simp_all add: ascii_def Let_def)

lemma drop_keeps_text: "n \<le> length h \<Longrightarrow> contains_text (drop n (h @ name @ rest)) name"
proof -
  assume "n \<le> length h"
  then have "drop n (h @ name @ rest) = drop n h @ name @ rest" by simp
  then show ?thesis unfolding contains_text_def by blast
qed

lemma execute_ok_reply:
  assumes "build_payload (request_data (resolve_language (languages self) language) code inputs
             compiler_flags Cl_options arguments) = Inr p"
    and "replies (session self) = r # rs"
    and "ok r"
    and "utf8_decode (body r) = Inr data"
  shows "fst (execute deflate self code language inputs compiler_flags Cl_options arguments)
         = (if re_search language_not_found_re data then Inl (LanguageNotFound (drop 16 data))
            else Inr (TioResponse data (resolve_language (languages self) language)))"
  using execute_reply [OF assms(1,2), of deflate] assms(3,4) by (simp add: handle_response_def)

section \<open>The field encoder\<close>

text \<open>
  C1 (as amended). For a name and a non-empty text \<open>s\<close> that the UTF-8 codec accepts (no lone
  surrogate), with encodings \<open>bn\<close> and \<open>bs\<close>, \<open>_format_payload\<close> returns exactly
  \<open>F\<close>, \<open>bn\<close>, NUL, the decimal text of the byte length of \<open>bs\<close> (not the number of code
  points of \<open>s\<close>), NUL, \<open>bs\<close>, NUL. When the name holds no NUL character, reading that
  record gives back the name, the byte length and \<open>s\<close>.
\<close>

theorem format_payload_scalar_record:
  assumes "s \<noteq> []" "utf8_encode name = Inr bn" "utf8_encode s = Inr bs"
  shows "format_payload name (PyStr s)
           = Inr (''F'' @ bn @ [NUL] @ decimal (length bs) @ [NUL] @ bs @ [NUL])
         \<and> (0 \<notin> set name \<longrightarrow>
              decode_scalar (''F'' @ bn @ [NUL] @ decimal (length bs) @ [NUL] @ bs @ [NUL])
                = Some (name, length bs, s))"
proof
  show "format_payload name (PyStr s)
           = Inr (''F'' @ bn @ [NUL] @ decimal (length bs) @ [NUL] @ bs @ [NUL])"
    using assms(1) utf8_encode_scalar_text[OF assms(2,3), of "length bs"] by (simp add: assms(3))
  show "0 \<notin> set name \<longrightarrow>
              decode_scalar (''F'' @ bn @ [NUL] @ decimal (length bs) @ [NUL] @ bs @ [NUL])
                = Some (name, length bs, s)"
    using decode_scalar_record[OF assms(2,3)] by blast
qed

theorem format_payload_scalar_record_witness:
  "[0xE9, 0x41] \<noteq> ([] :: pystr)
   \<and> utf8_encode (ascii ''.code.tio'') = Inr ''.code.tio''
   \<and> utf8_encode [0xE9, 0x41] = Inr [CHR 0xC3, CHR 0xA9, CHR ''A'']
   \<and> 0 \<notin> set (ascii ''.code.tio'')
   \<and> format_payload (ascii ''.code.tio'') (PyStr [0xE9, 0x41])
       = Inr (''F.code.tio'' @ [NUL] @ ''3'' @ [NUL] @ [CHR 0xC3, CHR 0xA9, CHR ''A''] @ [NUL])
   \<and> decode_scalar (''F.code.tio'' @ [NUL] @ ''3'' @ [NUL] @ [CHR 0xC3, CHR 0xA9, CHR ''A''] @ [NUL])
       = Some (ascii ''.code.tio'', 3, [0xE9, 0x41])"
proof -
  have h1: "[0xE9, 0x41] \<noteq> ([] :: pystr)" by simp
  have h2: "utf8_encode (ascii ''.code.tio'') = Inr ''.code.tio''"
    by (simp add: ascii_def utf8_char_def char_of_nat_eq)
  have h3: "utf8_encode [0xE9, 0x41] = Inr [CHR 0xC3, CHR 0xA9, CHR ''A'']"
    by (simp add: utf8_char_def char_of_nat_eq)
  have h4: "0 \<notin> set (ascii ''.code.tio'')" by (simp add: ascii_def)
  have d: "decimal 3 = ''3''" by (simp add: decimal_def str_nat.simps char_of_nat_eq)
  have l: "length [CHR 0xC3, CHR 0xA9, CHR ''A''] = 3" by simp
  show ?thesis
    using format_payload_scalar_record [OF h1 h2 h3, unfolded l d] h1 h2 h3 h4 by simp
qed

text \<open>
  As stated for every name and every text, C1 fails twice: a text with a lone surrogate
  makes the encoder raise \<open>UnicodeEncodeError\<close>, and the four-character name
  \<open>a\<close>, NUL, \<open>4\<close>, NUL with the text \<open>y\<close> gives the very bytes of the name \<open>a\<close> with the
  four-byte text NUL, \<open>1\<close>, NUL, \<open>y\<close>, which is what a reader recovers.
\<close>

theorem format_payload_scalar_record_counterexample:
  "format_payload (ascii ''.code.tio'') (PyStr [0xD800]) = Inl UnicodeEncodeError
   \<and> format_payload [97, 0, 52, 0] (PyStr [121])
       = Inr (''Fa'' @ [NUL] @ ''4'' @ [NUL, NUL] @ ''1'' @ [NUL] @ ''y'' @ [NUL])
   \<and> decode_scalar (''Fa'' @ [NUL] @ ''4'' @ [NUL, NUL] @ ''1'' @ [NUL] @ ''y'' @ [NUL])
       = Some ([97], 4, [0, 49, 0, 121])"
proof (intro conjI)
  show "format_payload (ascii ''.code.tio'') (PyStr [0xD800]) = Inl UnicodeEncodeError"
    by (simp add: utf8_char_def is_surrogate_def)
  show "format_payload [97, 0, 52, 0] (PyStr [121])
       = Inr (''Fa'' @ [NUL] @ ''4'' @ [NUL, NUL] @ ''1'' @ [NUL] @ ''y'' @ [NUL])"
    by (simp add: ascii_def utf8_char_def is_surrogate_def str_nat.simps char_of_nat_eq NUL_def)
  show "decode_scalar (''Fa'' @ [NUL] @ ''4'' @ [NUL, NUL] @ ''1'' @ [NUL] @ ''y'' @ [NUL])
       = Some ([97], 4, [0, 49, 0, 121])"
    by (simp add: decode_scalar_def NUL_def parse_nat_def is_digit_def Let_def)
qed

text \<open>
  C2 (as amended). For a name and a non-empty list \<open>xs\<close> of texts that the UTF-8 codec
  accepts, with encodings \<open>bn\<close> and \<open>bxs\<close>, \<open>_format_payload\<close> returns exactly \<open>V\<close>, \<open>bn\<close>,
  NUL, the decimal text of the length of \<open>xs\<close>, NUL, and each encoded element in order,
  each followed by one NUL. When neither the name nor an element holds a NUL character, a
  reader finds the name, the count \<open>length xs\<close> and exactly the elements \<open>xs\<close>, with nothing
  left over.
\<close>

theorem format_payload_sequence_record:
  assumes "xs \<noteq> []" "utf8_encode name = Inr bn"
    "list_all2 (\<lambda>x b. utf8_encode x = Inr b) xs bxs"
  shows "format_payload name (PyList xs)
           = Inr (''V'' @ bn @ [NUL] @ decimal (length xs) @ [NUL] @ concat (map (\<lambda>b. b @ [NUL]) bxs))
         \<and> length bxs = length xs
         \<and> (0 \<notin> set name \<and> (\<forall>x\<in>set xs. 0 \<notin> set x) \<longrightarrow>
              decode_vector (''V'' @ bn @ [NUL] @ decimal (length xs) @ [NUL]
                               @ concat (map (\<lambda>b. b @ [NUL]) bxs))
                = Some (name, length xs, xs))"
proof (intro conjI)
  have j: "py_join [0] ([ascii ''V'' @ name, str_nat (length xs)] @ xs) @ [0]
           = ascii ''V'' @ name @ [0] @ str_nat (length xs) @ [0] @ concat (map (\<lambda>x. x @ [0]) xs)"
    using py_join_sep[of "[ascii ''V'' @ name, str_nat (length xs)] @ xs" "[0]"] by simp
  show "format_payload name (PyList xs)
           = Inr (''V'' @ bn @ [NUL] @ decimal (length xs) @ [NUL] @ concat (map (\<lambda>b. b @ [NUL]) bxs))"
  proof -
    have "utf8_encode (ascii ''V'' @ name @ [0] @ str_nat (length xs) @ [0] @ concat (map (\<lambda>x. x @ [0]) xs))
          = Inr (''V'' @ bn @ [NUL] @ decimal (length xs) @ [NUL] @ concat (map (\<lambda>b. b @ [NUL]) bxs))"
      by (simp only: utf8_encode_append utf8_encode_V utf8_encode_NUL utf8_encode_str_nat
          assms(2) utf8_encode_elements[OF assms(3)] sum.case)
    then have "utf8_encode (py_join [0] ([ascii ''V'' @ name, str_nat (length xs)] @ xs) @ [0])
          = Inr (''V'' @ bn @ [NUL] @ decimal (length xs) @ [NUL] @ concat (map (\<lambda>b. b @ [NUL]) bxs))"
      by (simp only: j)
    then show ?thesis
      using assms(1) by (simp only: format_payload.simps if_False Let_def)
  qed
  show "length bxs = length xs" using assms(3) by (simp add: list_all2_lengthD)
  show "0 \<notin> set name \<and> (\<forall>x\<in>set xs. 0 \<notin> set x) \<longrightarrow>
              decode_vector (''V'' @ bn @ [NUL] @ decimal (length xs) @ [NUL]
                               @ concat (map (\<lambda>b. b @ [NUL]) bxs))
                = Some (name, length xs, xs)"
    using decode_vector_record[OF assms(2,3)] by blast
qed

theorem format_payload_sequence_record_witness:
  "[ascii ''-O2'', [0xE9]] \<noteq> []
   \<and> utf8_encode (ascii ''args'') = Inr ''args''
   \<and> list_all2 (\<lambda>x b. utf8_encode x = Inr b) [ascii ''-O2'', [0xE9]] [''-O2'', [CHR 0xC3, CHR 0xA9]]
   \<and> 0 \<notin> set (ascii ''args'') \<and> 0 \<notin> set (ascii ''-O2'') \<and> 0 \<notin> set [0xE9 :: nat]
   \<and> format_payload (ascii ''args'') (PyList [ascii ''-O2'', [0xE9]])
       = Inr (''Vargs'' @ [NUL] @ ''2'' @ [NUL] @ ''-O2'' @ [NUL] @ [CHR 0xC3, CHR 0xA9] @ [NUL])
   \<and> decode_vector (''Vargs'' @ [NUL] @ ''2'' @ [NUL] @ ''-O2'' @ [NUL] @ [CHR 0xC3, CHR 0xA9] @ [NUL])
       = Some (ascii ''args'', 2, [ascii ''-O2'', [0xE9]])"
proof -
  have h1: "[ascii ''-O2'', [0xE9]] \<noteq> []" by simp
  have h2: "utf8_encode (ascii ''args'') = Inr ''args''"
    by (simp add: ascii_def utf8_char_def char_of_nat_eq)
  have h3: "list_all2 (\<lambda>x b. utf8_encode x = Inr b) [ascii ''-O2'', [0xE9]] [''-O2'', [CHR 0xC3, CHR 0xA9]]"
    by (simp add: ascii_def utf8_char_def char_of_nat_eq)
  have h4: "0 \<notin> set (ascii ''args'') \<and> 0 \<notin> set (ascii ''-O2'') \<and> 0 \<notin> set [0xE9 :: nat]"
    by (simp add: ascii_def)
  have d: "decimal 2 = ''2''" by (simp add: decimal_def str_nat.simps char_of_nat_eq)
  have l: "length [ascii ''-O2'', [0xE9]] = 2" by simp
  show ?thesis
    using format_payload_sequence_record [OF h1 h2 h3, unfolded l d] h1 h2 h3 h4 by simp
qed

text \<open>
  As stated for every name and every list of strings, C2 fails twice: an element with a
  lone surrogate makes the encoder raise, and the list with the single element \<open>a\<close>, NUL, \<open>b\<close>
  gives a record that declares one element and is followed by two.
\<close>

theorem format_payload_sequence_record_counterexample:
  "format_payload (ascii ''args'') (PyList [[0xDC00]]) = Inl UnicodeEncodeError
   \<and> format_payload (ascii ''args'') (PyList [[97, 0, 98]])
       = Inr (''Vargs'' @ [NUL] @ ''1'' @ [NUL] @ ''a'' @ [NUL] @ ''b'' @ [NUL])
   \<and> decode_vector (''Vargs'' @ [NUL] @ ''1'' @ [NUL] @ ''a'' @ [NUL] @ ''b'' @ [NUL]) = None"
proof (intro conjI)
  show "format_payload (ascii ''args'') (PyList [[0xDC00]]) = Inl UnicodeEncodeError"
    by (simp add: ascii_def utf8_char_def is_surrogate_def str_nat.simps)
  show "format_payload (ascii ''args'') (PyList [[97, 0, 98]])
       = Inr (''Vargs'' @ [NUL] @ ''1'' @ [NUL] @ ''a'' @ [NUL] @ ''b'' @ [NUL])"
    by (simp add: ascii_def utf8_char_def is_surrogate_def str_nat.simps char_of_nat_eq NUL_def)
  show "decode_vector (''Vargs'' @ [NUL] @ ''1'' @ [NUL] @ ''a'' @ [NUL] @ ''b'' @ [NUL]) = None"
    by (simp add: decode_vector_def NUL_def parse_nat_def is_digit_def Let_def)
qed

text \<open>
  C3. Whatever the name, the empty string and the empty list (and \<open>None\<close>) are encoded as
  zero bytes: the field is left out of the payload.
\<close>

theorem format_payload_empty:
  "format_payload name (PyStr []) = Inr []
   \<and> format_payload name (PyList []) = Inr []
   \<and> format_payload name PyNone = Inr []"
  by simp

section \<open>The payload\<close>

text \<open>
  C4. With \<open>l\<close> the resolved language, \<open>execute\<close> has a payload \<open>p\<close> exactly when the encoder
  returns a record for each of the six fields \<open>lang\<close>, \<open>.code.tio\<close>, \<open>.input.tio\<close>,
  \<open>TIO_CFLAGS\<close>, \<open>TIO_OPTIONS\<close>, \<open>args\<close>, and \<open>p\<close> is then these six records in that order,
  with nothing between them, followed by the single byte \<open>R\<close>. It is this \<open>p\<close> that
  \<open>execute\<close> compresses and posts.
\<close>

theorem execute_payload_layout:
  assumes "l = resolve_language (languages self) language"
  shows "((build_payload (request_data l code inputs compiler_flags Cl_options arguments) = Inr p) =
           (\<exists>r1 r2 r3 r4 r5 r6.
              format_payload (ascii ''lang'') (PyList [l]) = Inr r1
            \<and> format_payload (ascii ''.code.tio'') (PyStr code) = Inr r2
            \<and> format_payload (ascii ''.input.tio'') (of_opt_str inputs) = Inr r3
            \<and> format_payload (ascii ''TIO_CFLAGS'') (of_opt_list compiler_flags) = Inr r4
            \<and> format_payload (ascii ''TIO_OPTIONS'') (of_opt_list Cl_options) = Inr r5
            \<and> format_payload (ascii ''args'') (of_opt_list arguments) = Inr r6
            \<and> p = r1 @ r2 @ r3 @ r4 @ r5 @ r6 @ ''R''))
       \<and> (build_payload (request_data l code inputs compiler_flags Cl_options arguments) = Inr p
            \<and> replies (session self) = r # rs \<longrightarrow>
          snd (execute deflate self code language inputs compiler_flags Cl_options arguments)
            = self\<lparr>session := (session self)\<lparr>replies := rs,
                       posted := posted (session self) @ [(API_URL, post_body deflate p)]\<rparr>\<rparr>)"
proof (intro conjI impI)
  show "(build_payload (request_data l code inputs compiler_flags Cl_options arguments) = Inr p) =
           (\<exists>r1 r2 r3 r4 r5 r6.
              format_payload (ascii ''lang'') (PyList [l]) = Inr r1
            \<and> format_payload (ascii ''.code.tio'') (PyStr code) = Inr r2
            \<and> format_payload (ascii ''.input.tio'') (of_opt_str inputs) = Inr r3
            \<and> format_payload (ascii ''TIO_CFLAGS'') (of_opt_list compiler_flags) = Inr r4
            \<and> format_payload (ascii ''TIO_OPTIONS'') (of_opt_list Cl_options) = Inr r5
            \<and> format_payload (ascii ''args'') (of_opt_list arguments) = Inr r6
            \<and> p = r1 @ r2 @ r3 @ r4 @ r5 @ r6 @ ''R'')"
    by (rule build_payload_request_data)
next
  assume a: "build_payload (request_data l code inputs compiler_flags Cl_options arguments) = Inr p
            \<and> replies (session self) = r # rs"
  then have b: "build_payload (request_data (resolve_language (languages self) language) code inputs
             compiler_flags Cl_options arguments) = Inr p" and c: "replies (session self) = r # rs"
    using assms by simp_all
  show "snd (execute deflate self code language inputs compiler_flags Cl_options arguments)
            = self\<lparr>session := (session self)\<lparr>replies := rs,
                       posted := posted (session self) @ [(API_URL, post_body deflate p)]\<rparr>\<rparr>"
    using execute_reply [OF b c, of deflate] by simp
qed

theorem execute_payload_layout_witness:
  "ascii ''python3''
     = resolve_language (languages \<lparr>languages = [ascii ''python3''], session = \<lparr>replies =
           [\<lparr>status = 200, reason = ascii ''OK'', body = []\<rparr>], posted = []\<rparr>\<rparr>) (ascii ''python3'')
   \<and> format_payload (ascii ''lang'') (PyList [ascii ''python3''])
       = Inr (''Vlang'' @ [NUL] @ ''1'' @ [NUL] @ ''python3'' @ [NUL])
   \<and> format_payload (ascii ''.code.tio'') (PyStr (ascii ''print(1)''))
       = Inr (''F.code.tio'' @ [NUL] @ ''8'' @ [NUL] @ ''print(1)'' @ [NUL])
   \<and> format_payload (ascii ''.input.tio'') (of_opt_str (Some (ascii ''5'')))
       = Inr (''F.input.tio'' @ [NUL] @ ''1'' @ [NUL] @ ''5'' @ [NUL])
   \<and> format_payload (ascii ''TIO_CFLAGS'') (of_opt_list (Some [])) = Inr []
   \<and> format_payload (ascii ''TIO_OPTIONS'') (of_opt_list None) = Inr []
   \<and> format_payload (ascii ''args'') (of_opt_list (Some [ascii ''-v'', ascii ''x'']))
       = Inr (''Vargs'' @ [NUL] @ ''2'' @ [NUL] @ ''-v'' @ [NUL] @ ''x'' @ [NUL])
   \<and> build_payload (request_data (ascii ''python3'') (ascii ''print(1)'') (Some (ascii ''5''))
         (Some []) None (Some [ascii ''-v'', ascii ''x'']))
       = Inr (''Vlang'' @ [NUL] @ ''1'' @ [NUL] @ ''python3'' @ [NUL]
              @ ''F.code.tio'' @ [NUL] @ ''8'' @ [NUL] @ ''print(1)'' @ [NUL]
              @ ''F.input.tio'' @ [NUL] @ ''1'' @ [NUL] @ ''5'' @ [NUL]
              @ ''Vargs'' @ [NUL] @ ''2'' @ [NUL] @ ''-v'' @ [NUL] @ ''x'' @ [NUL] @ ''R'')
   \<and> snd (execute (\<lambda>level data. data)
        \<lparr>languages = [ascii ''python3''], session = \<lparr>replies =
           [\<lparr>status = 200, reason = ascii ''OK'', body = []\<rparr>], posted = []\<rparr>\<rparr>
        (ascii ''print(1)'') (ascii ''python3'') (Some (ascii ''5''))
         (Some []) None (Some [ascii ''-v'', ascii ''x'']))
     = \<lparr>languages = [ascii ''python3''], session = \<lparr>replies = [], posted =
           [(API_URL, ''Vlang'' @ [NUL] @ ''1'' @ [NUL] @ ''python3'' @ [NUL]
              @ ''F.code.tio'' @ [NUL] @ ''8'' @ [NUL] @ ''print(1)'' @ [NUL]
              @ ''F.input.tio'' @ [NUL] @ ''1'' @ [NUL] @ ''5'' @ [NUL]
              @ ''Vargs'' @ [NUL] @ ''2'' @ [NUL] @ ''-v'' @ [NUL] @ ''x'' @ [NUL] @ ''R'')]\<rparr>\<rparr>"
proof -
  let ?R = "\<lparr>status = 200, reason = ascii ''OK'', body = []\<rparr>"
  let ?S = "\<lparr>languages = [ascii ''python3''], session = \<lparr>replies = [?R], posted = []\<rparr>\<rparr>"
  let ?r1 = "''Vlang'' @ [NUL] @ ''1'' @ [NUL] @ ''python3'' @ [NUL]"
  let ?r2 = "''F.code.tio'' @ [NUL] @ ''8'' @ [NUL] @ ''print(1)'' @ [NUL]"
  let ?r3 = "''F.input.tio'' @ [NUL] @ ''1'' @ [NUL] @ ''5'' @ [NUL]"
  let ?r6 = "''Vargs'' @ [NUL] @ ''2'' @ [NUL] @ ''-v'' @ [NUL] @ ''x'' @ [NUL]"
  note ev = ascii_def utf8_char_def str_nat.simps char_of_nat_eq NUL_def of_opt_str_def
    of_opt_list_def
  have h0: "ascii ''python3'' = resolve_language (languages ?S) (ascii ''python3'')"
    by (simp add: resolve_language_def)
  have r1: "format_payload (ascii ''lang'') (PyList [ascii ''python3'']) = Inr ?r1"
    by (simp add: ev)
  have r2: "format_payload (ascii ''.code.tio'') (PyStr (ascii ''print(1)'')) = Inr ?r2"
    by (simp add: ev)
  have r3: "format_payload (ascii ''.input.tio'') (of_opt_str (Some (ascii ''5''))) = Inr ?r3"
    by (simp add: ev)
  have r4: "format_payload (ascii ''TIO_CFLAGS'') (of_opt_list (Some [])) = Inr []"
    by (simp add: of_opt_list_def)
  have r5: "format_payload (ascii ''TIO_OPTIONS'') (of_opt_list None) = Inr []"
    by (simp add: of_opt_list_def)
  have r6: "format_payload (ascii ''args'') (of_opt_list (Some [ascii ''-v'', ascii ''x''])) = Inr ?r6"
    by (simp add: ev)
  note t = execute_payload_layout [OF h0, of "ascii ''print(1)''" "Some (ascii ''5'')" "Some []"
      None "Some [ascii ''-v'', ascii ''x'']" "?r1 @ ?r2 @ ?r3 @ [] @ [] @ ?r6 @ ''R''" ?R "[]"
      "\<lambda>level data. data"]
  have p: "build_payload (request_data (ascii ''python3'') (ascii ''print(1)'') (Some (ascii ''5''))
         (Some []) None (Some [ascii ''-v'', ascii ''x'']))
       = Inr (?r1 @ ?r2 @ ?r3 @ [] @ [] @ ?r6 @ ''R'')"
    using t [THEN conjunct1] r1 r2 r3 r4 r5 r6 by blast
  have rp: "replies (session ?S) = [?R]" by simp
  have e: "snd (execute (\<lambda>level data. data) ?S (ascii ''print(1)'') (ascii ''python3'')
         (Some (ascii ''5'')) (Some []) None (Some [ascii ''-v'', ascii ''x'']))
       = ?S\<lparr>session := (session ?S)\<lparr>replies := [],
            posted := posted (session ?S)
               @ [(API_URL, post_body (\<lambda>level data. data) (?r1 @ ?r2 @ ?r3 @ [] @ [] @ ?r6 @ ''R''))]\<rparr>\<rparr>"
    using t [THEN conjunct2] p rp by blast
  show ?thesis
    using h0 r1 r2 r3 r4 r5 r6 p e by (simp add: post_body_deflate)
qed

text \<open>
  C10 (as amended). In every payload the language field is the sequence record
  \<open>Vlang\<close>, NUL, \<open>1\<close>, NUL, the language, NUL: the count is always 1, also for an empty
  language. The code field and the input field come next, through the scalar branch: each
  is the \<open>F\<close> record with the byte length when its text is not empty, and zero bytes when
  it is empty (or, for the input, \<open>None\<close>).
\<close>

theorem payload_language_sequence_code_scalar:
  assumes "build_payload (request_data l code inputs compiler_flags Cl_options arguments) = Inr p"
  shows "\<exists>bl rc ri rest.
           utf8_encode l = Inr bl
         \<and> format_payload (ascii ''.code.tio'') (PyStr code) = Inr rc
         \<and> format_payload (ascii ''.input.tio'') (of_opt_str inputs) = Inr ri
         \<and> p = ''Vlang'' @ [NUL] @ ''1'' @ [NUL] @ bl @ [NUL] @ rc @ ri @ rest
         \<and> (code \<noteq> [] \<longrightarrow>
              (\<exists>bc. utf8_encode code = Inr bc
                 \<and> rc = ''F.code.tio'' @ [NUL] @ decimal (length bc) @ [NUL] @ bc @ [NUL]))
         \<and> (code = [] \<longrightarrow> rc = [])
         \<and> (\<forall>s. inputs = Some s \<and> s \<noteq> [] \<longrightarrow>
              (\<exists>bi. utf8_encode s = Inr bi
                 \<and> ri = ''F.input.tio'' @ [NUL] @ decimal (length bi) @ [NUL] @ bi @ [NUL]))
         \<and> (inputs = None \<or> inputs = Some [] \<longrightarrow> ri = [])"
proof -
  from assms obtain r1 rc ri r4 r5 r6 where
    r1: "format_payload (ascii ''lang'') (PyList [l]) = Inr r1"
    and rc: "format_payload (ascii ''.code.tio'') (PyStr code) = Inr rc"
    and ri: "format_payload (ascii ''.input.tio'') (of_opt_str inputs) = Inr ri"
    and p: "p = r1 @ rc @ ri @ r4 @ r5 @ r6 @ ''R''"
    unfolding build_payload_request_data by blast
  from format_payload_singleton_Inr[OF r1] obtain bl where
    bl: "utf8_encode l = Inr bl" and r1': "r1 = ''Vlang'' @ [NUL] @ ''1'' @ [NUL] @ bl @ [NUL]"
    by (auto simp: utf8_encode_lang)
  have c1: "code \<noteq> [] \<longrightarrow>
              (\<exists>bc. utf8_encode code = Inr bc
                 \<and> rc = ''F.code.tio'' @ [NUL] @ decimal (length bc) @ [NUL] @ bc @ [NUL])"
    using format_payload_PyStr_Inr[OF _ rc] by (auto simp: utf8_encode_code_tio)
  have c2: "code = [] \<longrightarrow> rc = []" using rc by auto
  have i1: "\<forall>s. inputs = Some s \<and> s \<noteq> [] \<longrightarrow>
              (\<exists>bi. utf8_encode s = Inr bi
                 \<and> ri = ''F.input.tio'' @ [NUL] @ decimal (length bi) @ [NUL] @ bi @ [NUL])"
  proof (intro allI impI)
    fix s assume s: "inputs = Some s \<and> s \<noteq> []"
    then have "format_payload (ascii ''.input.tio'') (PyStr s) = Inr ri"
      using ri by (simp add: of_opt_str_def)
    from format_payload_PyStr_Inr[OF _ this] s
    show "\<exists>bi. utf8_encode s = Inr bi
                 \<and> ri = ''F.input.tio'' @ [NUL] @ decimal (length bi) @ [NUL] @ bi @ [NUL]"
      by (auto simp: utf8_encode_input_tio)
  qed
  have i2: "inputs = None \<or> inputs = Some [] \<longrightarrow> ri = []"
    using ri by (auto simp: of_opt_str_def)
  have p': "p = ''Vlang'' @ [NUL] @ ''1'' @ [NUL] @ bl @ [NUL] @ rc @ ri @ (r4 @ r5 @ r6 @ ''R'')"
    using p r1' by simp
  show ?thesis using bl rc ri p' c1 c2 i1 i2 by blast
qed

theorem payload_language_sequence_code_scalar_witness:
  "build_payload (request_data (ascii ''python3'') [0xE9] (Some (ascii ''5''))
         (Some []) (Some []) (Some []))
     = Inr (''Vlang'' @ [NUL] @ ''1'' @ [NUL] @ ''python3'' @ [NUL]
            @ ''F.code.tio'' @ [NUL] @ ''2'' @ [NUL] @ [CHR 0xC3, CHR 0xA9] @ [NUL]
            @ ''F.input.tio'' @ [NUL] @ ''1'' @ [NUL] @ ''5'' @ [NUL] @ ''R'')
   \<and> (\<exists>bl rc ri rest.
           utf8_encode (ascii ''python3'') = Inr bl
         \<and> format_payload (ascii ''.code.tio'') (PyStr [0xE9]) = Inr rc
         \<and> format_payload (ascii ''.input.tio'') (of_opt_str (Some (ascii ''5''))) = Inr ri
         \<and> ''Vlang'' @ [NUL] @ ''1'' @ [NUL] @ ''python3'' @ [NUL]
            @ ''F.code.tio'' @ [NUL] @ ''2'' @ [NUL] @ [CHR 0xC3, CHR 0xA9] @ [NUL]
            @ ''F.input.tio'' @ [NUL] @ ''1'' @ [NUL] @ ''5'' @ [NUL] @ ''R''
           = ''Vlang'' @ [NUL] @ ''1'' @ [NUL] @ bl @ [NUL] @ rc @ ri @ rest
         \<and> (\<exists>bc. utf8_encode [0xE9] = Inr bc
                 \<and> rc = ''F.code.tio'' @ [NUL] @ decimal (length bc) @ [NUL] @ bc @ [NUL])
         \<and> (\<exists>bi. utf8_encode (ascii ''5'') = Inr bi
                 \<and> ri = ''F.input.tio'' @ [NUL] @ decimal (length bi) @ [NUL] @ bi @ [NUL]))"
proof -
  have h: "build_payload (request_data (ascii ''python3'') [0xE9] (Some (ascii ''5''))
         (Some []) (Some []) (Some []))
     = Inr (''Vlang'' @ [NUL] @ ''1'' @ [NUL] @ ''python3'' @ [NUL]
            @ ''F.code.tio'' @ [NUL] @ ''2'' @ [NUL] @ [CHR 0xC3, CHR 0xA9] @ [NUL]
            @ ''F.input.tio'' @ [NUL] @ ''1'' @ [NUL] @ ''5'' @ [NUL] @ ''R'')"
    by (simp add: build_payload_def request_data_def ascii_def utf8_char_def str_nat.simps
        char_of_nat_eq NUL_def of_opt_str_def of_opt_list_def)
  have c: "[0xE9] \<noteq> ([] :: pystr)" by simp
  have i: "Some (ascii ''5'') = Some (ascii ''5'') \<and> ascii ''5'' \<noteq> []" by (simp add: ascii_def)
  from payload_language_sequence_code_scalar [OF h] c i
  have "\<exists>bl rc ri rest.
           utf8_encode (ascii ''python3'') = Inr bl
         \<and> format_payload (ascii ''.code.tio'') (PyStr [0xE9]) = Inr rc
         \<and> format_payload (ascii ''.input.tio'') (of_opt_str (Some (ascii ''5''))) = Inr ri
         \<and> ''Vlang'' @ [NUL] @ ''1'' @ [NUL] @ ''python3'' @ [NUL]
            @ ''F.code.tio'' @ [NUL] @ ''2'' @ [NUL] @ [CHR 0xC3, CHR 0xA9] @ [NUL]
            @ ''F.input.tio'' @ [NUL] @ ''1'' @ [NUL] @ ''5'' @ [NUL] @ ''R''
           = ''Vlang'' @ [NUL] @ ''1'' @ [NUL] @ bl @ [NUL] @ rc @ ri @ rest
         \<and> (\<exists>bc. utf8_encode [0xE9] = Inr bc
                 \<and> rc = ''F.code.tio'' @ [NUL] @ decimal (length bc) @ [NUL] @ bc @ [NUL])
         \<and> (\<exists>bi. utf8_encode (ascii ''5'') = Inr bi
                 \<and> ri = ''F.input.tio'' @ [NUL] @ decimal (length bi) @ [NUL] @ bi @ [NUL])"
    by blast
  with h show ?thesis by blast
qed

text \<open>
  As stated for every request, C10 fails with the default input \<open>""\<close>: the payload of
  \<open>print(1)\<close> in \<open>python3\<close> holds the language and the code records and the closing \<open>R\<close>,
  and no \<open>F\<close> record for the input.
\<close>

theorem payload_language_sequence_code_scalar_counterexample:
  "build_payload (request_data (ascii ''python3'') (ascii ''print(1)'') (Some [])
         (Some []) (Some []) (Some []))
     = Inr (''Vlang'' @ [NUL] @ ''1'' @ [NUL] @ ''python3'' @ [NUL]
            @ ''F.code.tio'' @ [NUL] @ ''8'' @ [NUL] @ ''print(1)'' @ [NUL] @ ''R'')
   \<and> format_payload (ascii ''.input.tio'') (of_opt_str (Some [])) = Inr []"
  by (simp add: build_payload_def request_data_def ascii_def utf8_char_def str_nat.simps
        char_of_nat_eq NUL_def of_opt_str_def of_opt_list_def)

section \<open>Language resolution\<close>

text \<open>
  C6. A language that is in the catalog is used unchanged. Otherwise the first entry of
  the catalog, in its stored order, that contains the language as a substring is used.
  With no such entry (an empty catalog included) the language is passed on unchanged.
\<close>

theorem resolve_language_precedence:
  "(language \<in> set langs \<longrightarrow> resolve_language langs language = language)
   \<and> (language \<notin> set langs \<longrightarrow>
        (\<forall>i. i < length langs \<and> contains_text (langs ! i) language
              \<and> (\<forall>j. j < i \<longrightarrow> \<not> contains_text (langs ! j) language)
              \<longrightarrow> resolve_language langs language = langs ! i))
   \<and> (language \<notin> set langs \<and> (\<forall>l. l \<in> set langs \<longrightarrow> \<not> contains_text l language)
        \<longrightarrow> resolve_language langs language = language)"
proof (intro conjI impI allI)
  assume "language \<in> set langs"
  then show "resolve_language langs language = language"
    by (simp add: resolve_language_def)
next
  fix i
  assume n: "language \<notin> set langs"
    and i: "i < length langs \<and> contains_text (langs ! i) language
              \<and> (\<forall>j. j < i \<longrightarrow> \<not> contains_text (langs ! j) language)"
  let ?P = "\<lambda>l. py_in_str language l"
  have h: "hd (filter ?P langs) = langs ! i"
    using i by (intro hd_filter_first) (simp_all add: py_in_str_iff)
  have "langs ! i \<in> set (filter ?P langs)" using i by (simp add: py_in_str_iff)
  then have ne: "filter ?P langs \<noteq> []" by (metis empty_iff list.set(1))
  show "resolve_language langs language = langs ! i"
    using n ne h by (simp add: resolve_language_def Let_def)
next
  assume a: "language \<notin> set langs \<and> (\<forall>l. l \<in> set langs \<longrightarrow> \<not> contains_text l language)"
  then have "filter (\<lambda>l. py_in_str language l) langs = []"
    by (simp add: py_in_str_iff filter_empty_conv)
  then show "resolve_language langs language = language"
    using a by (simp add: resolve_language_def Let_def)
qed

theorem resolve_language_precedence_witness:
  "ascii ''python3'' \<in> set [ascii ''python3'', ascii ''python2'', ascii ''py'']
   \<and> resolve_language [ascii ''python3'', ascii ''python2'', ascii ''py''] (ascii ''python3'')
       = ascii ''python3''
   \<and> ascii ''on2'' \<notin> set [ascii ''python3'', ascii ''python2'', ascii ''py'']
   \<and> contains_text ([ascii ''python3'', ascii ''python2'', ascii ''py''] ! 1) (ascii ''on2'')
   \<and> \<not> contains_text ([ascii ''python3'', ascii ''python2'', ascii ''py''] ! 0) (ascii ''on2'')
   \<and> resolve_language [ascii ''python3'', ascii ''python2'', ascii ''py''] (ascii ''on2'')
       = ascii ''python2''
   \<and> resolve_language [ascii ''python3'', ascii ''python2'', ascii ''py''] (ascii ''pyth'')
       = ascii ''python3''
   \<and> resolve_language [] (ascii ''rust'') = ascii ''rust''"
proof -
  let ?L = "[ascii ''python3'', ascii ''python2'', ascii ''py'']"
  have a: "ascii ''python3'' \<in> set ?L" by simp
  have r1: "resolve_language ?L (ascii ''python3'') = ascii ''python3''"
    using resolve_language_precedence [of "ascii ''python3''" ?L] a by blast
  have b1: "ascii ''on2'' \<notin> set ?L" by (simp add: ascii_def)
  have b2: "contains_text (?L ! 1) (ascii ''on2'')"
    by (simp add: py_in_str_iff [symmetric] ascii_def)
  have b3: "\<not> contains_text (?L ! 0) (ascii ''on2'')"
    by (simp add: py_in_str_iff [symmetric] ascii_def)
  have b4: "\<forall>j. j < (1::nat) \<longrightarrow> \<not> contains_text (?L ! j) (ascii ''on2'')"
    using b3 by simp
  have b5: "(1::nat) < length ?L" by simp
  have "resolve_language ?L (ascii ''on2'') = ?L ! 1"
    using resolve_language_precedence [of "ascii ''on2''" ?L] b1 b2 b4 b5 by blast
  then have r2: "resolve_language ?L (ascii ''on2'') = ascii ''python2''" by simp
  have c1: "ascii ''pyth'' \<notin> set ?L" by (simp add: ascii_def)
  have c2: "contains_text (?L ! 0) (ascii ''pyth'')"
    by (simp add: py_in_str_iff [symmetric] ascii_def)
  have c3: "\<forall>j. j < (0::nat) \<longrightarrow> \<not> contains_text (?L ! j) (ascii ''pyth'')" by simp
  have c4: "(0::nat) < length ?L" by simp
  have "resolve_language ?L (ascii ''pyth'') = ?L ! 0"
    using resolve_language_precedence [of "ascii ''pyth''" ?L] c1 c2 c3 c4 by blast
  then have r3: "resolve_language ?L (ascii ''pyth'') = ascii ''python3''" by simp
  have r4: "resolve_language [] (ascii ''rust'') = ascii ''rust''"
    using resolve_language_precedence [of "ascii ''rust''" "[]"] by simp
  show ?thesis using a r1 b1 b2 b3 r2 r3 r4 by blast
qed

section \<open>The reply\<close>

text \<open>
  C9 (as amended). When the reply to the POST has a status of 400 or more, which is when
  \<open>r.ok\<close> is false, \<open>execute\<close> raises \<open>ApiError\<close> with the message \<open>Error\<close>, the status in
  decimal, a comma and the reason. Exactly one request has been posted and one reply
  consumed: nothing is retried, and no result is returned. A reply with any status below
  400, the 1xx and 3xx ones included, is handled as a success: its body is decoded and
  searched for the error message.
\<close>

theorem execute_api_error:
  assumes "build_payload (request_data (resolve_language (languages self) language) code inputs
             compiler_flags Cl_options arguments) = Inr p"
    and "replies (session self) = r # rs"
  shows "(400 \<le> status r \<longrightarrow>
            execute deflate self code language inputs compiler_flags Cl_options arguments
              = (Inl (ApiError (ascii ''Error '' @ str_nat (status r) @ ascii '', '' @ reason r)),
                 self\<lparr>session := (session self)\<lparr>replies := rs,
                       posted := posted (session self) @ [(API_URL, post_body deflate p)]\<rparr>\<rparr>))
       \<and> (status r < 400 \<longrightarrow>
            fst (execute deflate self code language inputs compiler_flags Cl_options arguments)
              = (case utf8_decode (body r) of
                   Inl e \<Rightarrow> Inl e
                 | Inr data \<Rightarrow>
                     if re_search language_not_found_re data
                     then Inl (LanguageNotFound (drop 16 data))
                     else Inr (TioResponse data (resolve_language (languages self) language))))"
proof (intro conjI impI)
  note e = execute_reply [OF assms, of deflate]
  assume "400 \<le> status r"
  then have "\<not> ok r" by (simp add: ok_def)
  then show "execute deflate self code language inputs compiler_flags Cl_options arguments
              = (Inl (ApiError (ascii ''Error '' @ str_nat (status r) @ ascii '', '' @ reason r)),
                 self\<lparr>session := (session self)\<lparr>replies := rs,
                       posted := posted (session self) @ [(API_URL, post_body deflate p)]\<rparr>\<rparr>)"
    using e by (simp add: handle_response_def)
next
  note e = execute_reply [OF assms, of deflate]
  assume "status r < 400"
  then have "ok r" by (simp add: ok_def)
  then show "fst (execute deflate self code language inputs compiler_flags Cl_options arguments)
              = (case utf8_decode (body r) of
                   Inl e \<Rightarrow> Inl e
                 | Inr data \<Rightarrow>
                     if re_search language_not_found_re data
                     then Inl (LanguageNotFound (drop 16 data))
                     else Inr (TioResponse data (resolve_language (languages self) language)))"
    using e by (simp add: handle_response_def)
qed

theorem execute_api_error_witness:
  "build_payload (request_data
       (resolve_language (languages \<lparr>languages = [], session = \<lparr>replies =
           [\<lparr>status = 404, reason = ascii ''Not Found'', body = []\<rparr>], posted = []\<rparr>\<rparr>) (ascii ''python3''))
       (ascii ''print(1)'') (Some []) (Some []) (Some []) (Some []))
     = Inr (''Vlang'' @ [NUL] @ ''1'' @ [NUL] @ ''python3'' @ [NUL]
            @ ''F.code.tio'' @ [NUL] @ ''8'' @ [NUL] @ ''print(1)'' @ [NUL] @ ''R'')
   \<and> replies (session \<lparr>languages = [], session = \<lparr>replies =
           [\<lparr>status = 404, reason = ascii ''Not Found'', body = []\<rparr>], posted = []\<rparr>\<rparr>)
       = [\<lparr>status = 404, reason = ascii ''Not Found'', body = []\<rparr>]
   \<and> 400 \<le> status \<lparr>status = 404, reason = ascii ''Not Found'', body = []\<rparr>
   \<and> execute (\<lambda>level data. data)
        \<lparr>languages = [], session = \<lparr>replies =
           [\<lparr>status = 404, reason = ascii ''Not Found'', body = []\<rparr>], posted = []\<rparr>\<rparr>
        (ascii ''print(1)'') (ascii ''python3'') (Some []) (Some []) (Some []) (Some [])
     = (Inl (ApiError (ascii ''Error 404, Not Found'')),
        \<lparr>languages = [], session = \<lparr>replies = [], posted =
           [(API_URL, ''Vlang'' @ [NUL] @ ''1'' @ [NUL] @ ''python3'' @ [NUL]
            @ ''F.code.tio'' @ [NUL] @ ''8'' @ [NUL] @ ''print(1)'' @ [NUL] @ ''R'')]\<rparr>\<rparr>)
   \<and> status \<lparr>status = 200, reason = ascii ''OK'', body = ''0123456789abcdefHello''\<rparr> < 400
   \<and> fst (execute (\<lambda>level data. data)
        \<lparr>languages = [], session = \<lparr>replies =
           [\<lparr>status = 200, reason = ascii ''OK'', body = ''0123456789abcdefHello''\<rparr>], posted = []\<rparr>\<rparr>
        (ascii ''print(1)'') (ascii ''python3'') (Some []) (Some []) (Some []) (Some []))
       = Inr (TioResponse (ascii ''0123456789abcdefHello'') (ascii ''python3''))"
proof -
  let ?R = "\<lparr>status = 404, reason = ascii ''Not Found'', body = []\<rparr>"
  let ?S = "\<lparr>languages = [], session = \<lparr>replies = [?R], posted = []\<rparr>\<rparr>"
  let ?R2 = "\<lparr>status = 200, reason = ascii ''OK'', body = ''0123456789abcdefHello''\<rparr>"
  let ?S2 = "\<lparr>languages = [], session = \<lparr>replies = [?R2], posted = []\<rparr>\<rparr>"
  let ?P = "''Vlang'' @ [NUL] @ ''1'' @ [NUL] @ ''python3'' @ [NUL]
            @ ''F.code.tio'' @ [NUL] @ ''8'' @ [NUL] @ ''print(1)'' @ [NUL] @ ''R''"
  have p: "build_payload (request_data (resolve_language [] (ascii ''python3''))
       (ascii ''print(1)'') (Some []) (Some []) (Some []) (Some [])) = Inr ?P"
    by (simp add: build_payload_def request_data_def resolve_language_def ascii_def utf8_char_def
        str_nat.simps char_of_nat_eq NUL_def of_opt_str_def of_opt_list_def)
  have h1: "build_payload (request_data (resolve_language (languages ?S) (ascii ''python3''))
       (ascii ''print(1)'') (Some []) (Some []) (Some []) (Some [])) = Inr ?P"
    using p by simp
  have h2: "replies (session ?S) = [?R]" by simp
  have h3: "400 \<le> status ?R" by simp
  have g1: "build_payload (request_data (resolve_language (languages ?S2) (ascii ''python3''))
       (ascii ''print(1)'') (Some []) (Some []) (Some []) (Some [])) = Inr ?P"
    using p by simp
  have g2: "replies (session ?S2) = [?R2]" by simp
  have g3: "status ?R2 < 400" by simp
  have m: "ascii ''Error '' @ str_nat 404 @ ascii '', '' @ ascii ''Not Found''
           = ascii ''Error 404, Not Found''"
    by (simp add: ascii_def str_nat.simps)
  have r1: "execute (\<lambda>level data. data) ?S (ascii ''print(1)'') (ascii ''python3'')
              (Some []) (Some []) (Some []) (Some [])
            = (Inl (ApiError (ascii ''Error '' @ str_nat (status ?R) @ ascii '', '' @ reason ?R)),
               ?S\<lparr>session := (session ?S)\<lparr>replies := [],
                  posted := posted (session ?S) @ [(API_URL, post_body (\<lambda>level data. data) ?P)]\<rparr>\<rparr>)"
    using execute_api_error [where deflate = "\<lambda>level data. data", OF h1 h2] h3 by blast
  have d: "utf8_decode (body ?R2) = Inr (ascii ''0123456789abcdefHello'')"
    using utf8_decode_ascii [of "''0123456789abcdefHello''"] by simp
  have q: "39 \<notin> set (ascii ''0123456789abcdefHello'')" by (simp add: ascii_def)
  have rl: "resolve_language (languages ?S2) (ascii ''python3'') = ascii ''python3''"
    by (simp add: resolve_language_def)
  have "fst (execute (\<lambda>level data. data) ?S2 (ascii ''print(1)'') (ascii ''python3'')
              (Some []) (Some []) (Some []) (Some []))
        = (case utf8_decode (body ?R2) of
             Inl e \<Rightarrow> Inl e
           | Inr data \<Rightarrow>
               if re_search language_not_found_re data
               then Inl (LanguageNotFound (drop 16 data))
               else Inr (TioResponse data (resolve_language (languages ?S2) (ascii ''python3''))))"
    using execute_api_error [where deflate = "\<lambda>level data. data", OF g1 g2] g3 by blast
  then have r2: "fst (execute (\<lambda>level data. data) ?S2 (ascii ''print(1)'') (ascii ''python3'')
              (Some []) (Some []) (Some []) (Some []))
        = Inr (TioResponse (ascii ''0123456789abcdefHello'') (ascii ''python3''))"
    by (simp only: d rl sum.case language_not_found_needs_quote [OF q] if_False)
  show ?thesis
    using h1 h2 h3 g3 r1 r2 by (simp add: m post_body_deflate)
qed

text \<open>
  As stated for every non-success status, C9 fails at 304: the status is not a 2xx one,
  \<open>r.ok\<close> holds all the same, and the body is returned as a result.
\<close>

theorem execute_api_error_counterexample:
  "ok \<lparr>status = 304, reason = ascii ''Not Modified'', body = ''0123456789abcdefHello''\<rparr>
   \<and> fst (execute (\<lambda>level data. data)
        \<lparr>languages = [], session = \<lparr>replies =
           [\<lparr>status = 304, reason = ascii ''Not Modified'', body = ''0123456789abcdefHello''\<rparr>],
           posted = []\<rparr>\<rparr>
        (ascii ''print(1)'') (ascii ''python3'') (Some []) (Some []) (Some []) (Some []))
     = Inr (TioResponse (ascii ''0123456789abcdefHello'') (ascii ''python3''))"
proof -
  let ?B = "''0123456789abcdefHello''"
  let ?R = "\<lparr>status = 304, reason = ascii ''Not Modified'', body = ?B\<rparr>"
  let ?S = "\<lparr>languages = [], session = \<lparr>replies = [?R], posted = []\<rparr>\<rparr>"
  let ?P = "''Vlang'' @ [NUL] @ ''1'' @ [NUL] @ ''python3'' @ [NUL]
            @ ''F.code.tio'' @ [NUL] @ ''8'' @ [NUL] @ ''print(1)'' @ [NUL] @ ''R''"
  have h1: "build_payload (request_data (resolve_language (languages ?S) (ascii ''python3''))
       (ascii ''print(1)'') (Some []) (Some []) (Some []) (Some [])) = Inr ?P"
    by (simp add: build_payload_def request_data_def resolve_language_def ascii_def utf8_char_def
        str_nat.simps char_of_nat_eq NUL_def of_opt_str_def of_opt_list_def)
  have h2: "replies (session ?S) = [?R]" by simp
  have h3: "ok ?R" by (simp add: ok_def)
  have "utf8_decode ?B = Inr (ascii ?B)" by (rule utf8_decode_ascii) simp
  then have h4: "utf8_decode (body ?R) = Inr (ascii ?B)" by simp
  have q: "39 \<notin> set (ascii ?B)" by (simp add: ascii_def)
  have rl: "resolve_language (languages ?S) (ascii ''python3'') = ascii ''python3''"
    by (simp add: resolve_language_def)
  have "fst (execute (\<lambda>level data. data) ?S (ascii ''print(1)'') (ascii ''python3'')
              (Some []) (Some []) (Some []) (Some []))
        = Inr (TioResponse (ascii ?B) (ascii ''python3''))"
    using execute_ok_reply [where deflate = "\<lambda>level data. data", OF h1 h2 h3 h4]
      language_not_found_needs_quote [OF q] rl
    by simp
  then show ?thesis using h3 by simp
qed

text \<open>
  C7 (as amended). For a reply that is decoded to the text \<open>data\<close>: when \<open>data\<close> matches
  the pattern, \<open>execute\<close> raises \<open>LanguageNotFound\<close> carrying \<open>data\<close> without its first 16
  characters. A text that holds the message \<open>The language 'name' could not be found on the
  server.\<close> matches, and the carried text contains the name when at least two characters
  precede the message (the service sends sixteen). Every text that does not match gives a
  \<open>TioResponse\<close> of the text and the resolved language.
\<close>

theorem execute_language_not_found:
  assumes "build_payload (request_data (resolve_language (languages self) language) code inputs
             compiler_flags Cl_options arguments) = Inr p"
    and "replies (session self) = r # rs"
    and "ok r"
    and "utf8_decode (body r) = Inr data"
  shows "(re_search language_not_found_re data \<longrightarrow>
            fst (execute deflate self code language inputs compiler_flags Cl_options arguments)
              = Inl (LanguageNotFound (drop 16 data)))
       \<and> (name \<noteq> [] \<and> 10 \<notin> set name
            \<and> data = pre @ ascii ''The language '' @ [39] @ name @ [39]
                         @ ascii '' could not be found on the server.'' @ post \<longrightarrow>
            fst (execute deflate self code language inputs compiler_flags Cl_options arguments)
              = Inl (LanguageNotFound (drop 16 data))
            \<and> (2 \<le> length pre \<longrightarrow> contains_text (drop 16 data) name))
       \<and> (\<not> re_search language_not_found_re data \<longrightarrow>
            fst (execute deflate self code language inputs compiler_flags Cl_options arguments)
              = Inr (TioResponse data (resolve_language (languages self) language)))"
proof (intro conjI impI)
  note e = execute_ok_reply [OF assms, of deflate]
  show "fst (execute deflate self code language inputs compiler_flags Cl_options arguments)
              = Inl (LanguageNotFound (drop 16 data))" if "re_search language_not_found_re data"
    using e that by simp
  show "fst (execute deflate self code language inputs compiler_flags Cl_options arguments)
              = Inr (TioResponse data (resolve_language (languages self) language))"
    if "\<not> re_search language_not_found_re data"
    using e that by simp
  assume a: "name \<noteq> [] \<and> 10 \<notin> set name
            \<and> data = pre @ ascii ''The language '' @ [39] @ name @ [39]
                         @ ascii '' could not be found on the server.'' @ post"
  have s1: "ascii ''The language '' = ascii ''The language'' @ [32]" by (simp add: ascii_def)
  have s2: "ascii '' could not be found on the server.''
            = [32] @ ascii ''could not be found on the server'' @ [46]" by (simp add: ascii_def)
  have d: "data = pre @ ascii ''The language'' @ [32] @ [39] @ name @ [39] @ [32]
                     @ ascii ''could not be found on the server'' @ [46] @ post"
    using a by (simp add: s1 s2)
  have "re_search language_not_found_re data"
    unfolding d by (rule language_not_found_match) (use a in simp_all)
  then show "fst (execute deflate self code language inputs compiler_flags Cl_options arguments)
              = Inl (LanguageNotFound (drop 16 data))"
    using e by simp
  assume l: "2 \<le> length pre"
  have d': "data = (pre @ ascii ''The language '' @ [39]) @ name
                     @ ([39] @ ascii '' could not be found on the server.'' @ post)"
    using a by simp
  have "16 \<le> length (pre @ ascii ''The language '' @ [39])" using l by (simp add: ascii_def)
  then show "contains_text (drop 16 data) name"
    unfolding d' by (rule drop_keeps_text)
qed

theorem execute_language_not_found_witness:
  "build_payload (request_data (resolve_language [] (ascii ''xyz'')) (ascii ''print(1)'')
       (Some []) (Some []) (Some []) (Some []))
     = Inr (''Vlang'' @ [NUL] @ ''1'' @ [NUL] @ ''xyz'' @ [NUL]
            @ ''F.code.tio'' @ [NUL] @ ''8'' @ [NUL] @ ''print(1)'' @ [NUL] @ ''R'')
   \<and> ok \<lparr>status = 200, reason = ascii ''OK'',
          body = ''0123456789abcdefThe language '' @ [CHR 0x27] @ ''xyz'' @ [CHR 0x27]
                   @ '' could not be found on the server.''\<rparr>
   \<and> utf8_decode (''0123456789abcdefThe language '' @ [CHR 0x27] @ ''xyz'' @ [CHR 0x27]
                   @ '' could not be found on the server.'')
       = Inr (ascii ''0123456789abcdef'' @ ascii ''The language '' @ [39] @ ascii ''xyz'' @ [39]
                   @ ascii '' could not be found on the server.'' @ [])
   \<and> fst (execute (\<lambda>level data. data)
        \<lparr>languages = [], session = \<lparr>replies = [\<lparr>status = 200, reason = ascii ''OK'',
          body = ''0123456789abcdefThe language '' @ [CHR 0x27] @ ''xyz'' @ [CHR 0x27]
                   @ '' could not be found on the server.''\<rparr>], posted = []\<rparr>\<rparr>
        (ascii ''print(1)'') (ascii ''xyz'') (Some []) (Some []) (Some []) (Some []))
       = Inl (LanguageNotFound (ascii ''The language '' @ [39] @ ascii ''xyz'' @ [39]
                   @ ascii '' could not be found on the server.''))
   \<and> contains_text (ascii ''The language '' @ [39] @ ascii ''xyz'' @ [39]
                   @ ascii '' could not be found on the server.'') (ascii ''xyz'')
   \<and> utf8_decode ''0123456789abcdefHello, World!'' = Inr (ascii ''0123456789abcdefHello, World!'')
   \<and> \<not> re_search language_not_found_re (ascii ''0123456789abcdefHello, World!'')
   \<and> fst (execute (\<lambda>level data. data)
        \<lparr>languages = [], session = \<lparr>replies = [\<lparr>status = 200, reason = ascii ''OK'',
          body = ''0123456789abcdefHello, World!''\<rparr>], posted = []\<rparr>\<rparr>
        (ascii ''print(1)'') (ascii ''xyz'') (Some []) (Some []) (Some []) (Some []))
       = Inr (TioResponse (ascii ''0123456789abcdefHello, World!'') (ascii ''xyz''))"
proof -
  let ?B = "''0123456789abcdefThe language '' @ [CHR 0x27] @ ''xyz'' @ [CHR 0x27]
                   @ '' could not be found on the server.''"
  let ?R = "\<lparr>status = 200, reason = ascii ''OK'', body = ?B\<rparr>"
  let ?S = "\<lparr>languages = [], session = \<lparr>replies = [?R], posted = []\<rparr>\<rparr>"
  let ?D = "ascii ''0123456789abcdef'' @ ascii ''The language '' @ [39] @ ascii ''xyz'' @ [39]
                   @ ascii '' could not be found on the server.'' @ []"
  let ?B2 = "''0123456789abcdefHello, World!''"
  let ?R2 = "\<lparr>status = 200, reason = ascii ''OK'', body = ?B2\<rparr>"
  let ?S2 = "\<lparr>languages = [], session = \<lparr>replies = [?R2], posted = []\<rparr>\<rparr>"
  have h1: "build_payload (request_data (resolve_language (languages ?S) (ascii ''xyz''))
       (ascii ''print(1)'') (Some []) (Some []) (Some []) (Some []))
     = Inr (''Vlang'' @ [NUL] @ ''1'' @ [NUL] @ ''xyz'' @ [NUL]
            @ ''F.code.tio'' @ [NUL] @ ''8'' @ [NUL] @ ''print(1)'' @ [NUL] @ ''R'')"
    using example_payload by simp
  have h2: "replies (session ?S) = [?R]" by simp
  have h3: "ok ?R" by (simp add: ok_def)
  have "utf8_decode ?B = Inr (ascii ?B)" by (rule utf8_decode_ascii) simp
  then have h4': "utf8_decode ?B = Inr ?D" by (simp add: ascii_def)
  then have h4: "utf8_decode (body ?R) = Inr ?D" by simp
  have n: "ascii ''xyz'' \<noteq> [] \<and> 10 \<notin> set (ascii ''xyz'') \<and> ?D = ?D" by (simp add: ascii_def)
  have l: "2 \<le> length (ascii ''0123456789abcdef'')" by (simp add: ascii_def)
  note t = execute_language_not_found [where deflate = "\<lambda>level data. data"
      and name = "ascii ''xyz''" and pre = "ascii ''0123456789abcdef''" and post = "[]",
      OF h1 h2 h3 h4]
  have dr: "drop 16 ?D = ascii ''The language '' @ [39] @ ascii ''xyz'' @ [39]
                   @ ascii '' could not be found on the server.''"
    by (simp add: ascii_def)
  have r1: "fst (execute (\<lambda>level data. data) ?S (ascii ''print(1)'') (ascii ''xyz'')
              (Some []) (Some []) (Some []) (Some [])) = Inl (LanguageNotFound (drop 16 ?D))"
    and r2: "contains_text (drop 16 ?D) (ascii ''xyz'')"
    using t n l by blast+
  have g1: "build_payload (request_data (resolve_language (languages ?S2) (ascii ''xyz''))
       (ascii ''print(1)'') (Some []) (Some []) (Some []) (Some []))
     = Inr (''Vlang'' @ [NUL] @ ''1'' @ [NUL] @ ''xyz'' @ [NUL]
            @ ''F.code.tio'' @ [NUL] @ ''8'' @ [NUL] @ ''print(1)'' @ [NUL] @ ''R'')"
    using example_payload by simp
  have g2: "replies (session ?S2) = [?R2]" by simp
  have g3: "ok ?R2" by (simp add: ok_def)
  have g4': "utf8_decode ?B2 = Inr (ascii ?B2)" by (rule utf8_decode_ascii) simp
  then have g4: "utf8_decode (body ?R2) = Inr (ascii ?B2)" by simp
  have q: "39 \<notin> set (ascii ?B2)" by (simp add: ascii_def)
  have g5: "\<not> re_search language_not_found_re (ascii ?B2)"
    by (rule language_not_found_needs_quote [OF q])
  have r3: "fst (execute (\<lambda>level data. data) ?S2 (ascii ''print(1)'') (ascii ''xyz'')
              (Some []) (Some []) (Some []) (Some []))
            = Inr (TioResponse (ascii ?B2) (resolve_language (languages ?S2) (ascii ''xyz'')))"
    using execute_language_not_found [where deflate = "\<lambda>level data. data", OF g1 g2 g3 g4] g5
    by blast
  have rl: "resolve_language (languages ?S2) (ascii ''xyz'') = ascii ''xyz''"
    by (simp add: resolve_language_def)
  show ?thesis
    using example_payload h3 h4' r1 r2 g4' g5 r3 unfolding dr rl by blast
qed

text \<open>
  As stated, C7 fails when the body is the message itself: the first 16 characters go,
  the name \<open>xyz\<close> with them, and what is carried does not contain it.
\<close>

theorem execute_language_not_found_counterexample:
  "fst (execute (\<lambda>level data. data)
        \<lparr>languages = [], session = \<lparr>replies = [\<lparr>status = 200, reason = ascii ''OK'',
          body = ''The language '' @ [CHR 0x27] @ ''xyz'' @ [CHR 0x27]
                   @ '' could not be found on the server.''\<rparr>], posted = []\<rparr>\<rparr>
        (ascii ''print(1)'') (ascii ''xyz'') (Some []) (Some []) (Some []) (Some []))
     = Inl (LanguageNotFound (ascii ''z'' @ [39] @ ascii '' could not be found on the server.''))
   \<and> \<not> contains_text (ascii ''z'' @ [39] @ ascii '' could not be found on the server.'')
         (ascii ''xyz'')"
proof -
  let ?B = "''The language '' @ [CHR 0x27] @ ''xyz'' @ [CHR 0x27]
                   @ '' could not be found on the server.''"
  let ?R = "\<lparr>status = 200, reason = ascii ''OK'', body = ?B\<rparr>"
  let ?S = "\<lparr>languages = [], session = \<lparr>replies = [?R], posted = []\<rparr>\<rparr>"
  let ?D = "[] @ ascii ''The language'' @ [32] @ [39] @ ascii ''xyz'' @ [39] @ [32]
              @ ascii ''could not be found on the server'' @ [46] @ []"
  have h1: "build_payload (request_data (resolve_language (languages ?S) (ascii ''xyz''))
       (ascii ''print(1)'') (Some []) (Some []) (Some []) (Some []))
     = Inr (''Vlang'' @ [NUL] @ ''1'' @ [NUL] @ ''xyz'' @ [NUL]
            @ ''F.code.tio'' @ [NUL] @ ''8'' @ [NUL] @ ''print(1)'' @ [NUL] @ ''R'')"
    using example_payload by simp
  have h2: "replies (session ?S) = [?R]" by simp
  have h3: "ok ?R" by (simp add: ok_def)
  have "utf8_decode ?B = Inr (ascii ?B)" by (rule utf8_decode_ascii) simp
  then have h4: "utf8_decode (body ?R) = Inr ?D" by (simp add: ascii_def)
  have m: "re_search language_not_found_re ?D"
    by (rule language_not_found_match) (simp_all add: ascii_def)
  have dr: "drop 16 ?D = ascii ''z'' @ [39] @ ascii '' could not be found on the server.''"
    by (simp add: ascii_def)
  have r1: "fst (execute (\<lambda>level data. data) ?S (ascii ''print(1)'') (ascii ''xyz'')
              (Some []) (Some []) (Some []) (Some [])) = Inl (LanguageNotFound (drop 16 ?D))"
    using execute_ok_reply [where deflate = "\<lambda>level data. data", OF h1 h2 h3 h4] m by simp
  have r2: "\<not> contains_text (ascii ''z'' @ [39] @ ascii '' could not be found on the server.'')
         (ascii ''xyz'')"
    by (simp add: py_in_str_iff [symmetric] ascii_def)
  show ?thesis using r1 r2 unfolding dr by blast
qed




end
